theory Spec2Isabelle
  imports Main
begin

section \<open>Data model\<close>

text \<open>
  Instants and durations are integers (nanoseconds, as Go's \<open>time.Duration\<close>).
  A CID is identified with \<open>c.CID.Hash().B58String()\<close>, the only view of it that
  the tracker uses as a key. A peer ID is its string form.
\<close>

type_synonym time = int
type_synonym duration = int
type_synonym cid = string
type_synonym peerID = string

text \<open>
  Modelled from the spec: the structs of package \<open>models\<close> (PeerInfo, PRPingResults,
  CidFetchResults, CidInfo) are declared outside the files at hand; their fields are the
  attributes of section 3 of the specification that the tracker code reads or writes.
\<close>

record PeerInfo =
  peerId :: peerID
  MultiAddrs :: "string list"
  UserAgent :: string

record PRPingResults =
  prCid :: cid
  prPeer :: peerID
  prRound :: int
  prPublicationTime :: time
  prFetchTime :: time
  prFetchDuration :: duration
  Active :: bool
  HasRecords :: bool
  RecordsWithMAddrs :: bool
  ConnError :: string

record CidFetchResults =
  frCid :: cid
  frRound :: int
  frK :: int
  frPublicationTime :: time
  StartTime :: time
  FinishTime :: time
  IsRetrievable :: bool
  TotalHops :: int
  HopsToClosest :: int
  HopsTreeDepth :: int
  MinHopsToClosest :: int
  FindProvDuration :: duration
  GetClosePeersDuration :: duration
  ClosestPeers :: "peerID list"
  PRPingResultsL :: "PRPingResults list"
  DoneC :: nat

record CidInfo =
  CID :: cid
  Creator :: peerID
  K :: int
  ProvOp :: string
  ReqInterval :: duration
  StudyDuration :: duration
  PublicationTime :: time
  ProvideTime :: duration
  PRHolders :: "PeerInfo list"
  PingCounter :: int
  NextPing :: time
  PRFetchResults :: "CidFetchResults list"

text \<open>Modelled from the spec: \<open>IncreasePingCounter\<close> of package \<open>models\<close>
  ("increment its counter") and its reader \<open>GetPingCounter\<close>. The orchestrator's scan
  takes the method as a parameter, so that what is proved of the scan holds for whatever
  else the method does to the object.\<close>

definition IncreasePingCounter :: "CidInfo \<Rightarrow> CidInfo" where
  "IncreasePingCounter c = c\<lparr>PingCounter := PingCounter c + 1\<rparr>"

definition GetPingCounter :: "CidInfo \<Rightarrow> int" where
  "GetPingCounter c = PingCounter c"

text \<open>What the scan relies on: the method adds one to the counter and leaves the CID.\<close>

definition countsPing :: "(CidInfo \<Rightarrow> CidInfo) \<Rightarrow> CidInfo \<Rightarrow> bool" where
  "countsPing inc c = (CID (inc c) = CID c \<and> GetPingCounter (inc c) = GetPingCounter c + 1)"

section \<open>The pinger's queue\<close>

text \<open>
  \<open>cidQueue\<close> holds pointers to CidInfo objects in a map and in a slice. A slice is a
  view (backing array, length) and several views may share one backing array, so the
  arrays and the objects live in an explicit store. All slices of the queue start at
  offset 0 of their backing array; the capacity is the length of the backing array.
\<close>

type_synonym ref = nat

record slice =
  arr :: nat
  len :: nat

record cidQueue =
  cidMap :: "string \<rightharpoonup> ref"
  cidArray :: slice

record pinger =
  objs :: "ref \<Rightarrow> CidInfo"
  arrays :: "nat \<Rightarrow> ref list"
  nextArr :: nat
  cidQ :: cidQueue
  rounds :: int
  pingTaskC :: "ref list"

definition elems :: "pinger \<Rightarrow> slice \<Rightarrow> ref list" where
  "elems p s = take (len s) (arrays p (arr s))"

definition Len :: "pinger \<Rightarrow> nat" where
  "Len p = len (cidArray (cidQ p))"

definition keyOf :: "pinger \<Rightarrow> ref \<Rightarrow> string" where
  "keyOf p r = CID (objs p r)"

text \<open>\<open>make([]*models.CidInfo, 0)\<close>: a fresh backing array of length 0.\<close>

definition make0 :: "pinger \<Rightarrow> slice \<times> pinger" where
  "make0 p = (\<lparr>arr = nextArr p, len = 0\<rparr>,
              p\<lparr>arrays := (arrays p)(nextArr p := []), nextArr := Suc (nextArr p)\<rparr>)"

text \<open>The search loop of \<open>removeCid\<close>: the first index whose element has the key.\<close>

fun findItem :: "(ref \<Rightarrow> string) \<Rightarrow> string \<Rightarrow> ref list \<Rightarrow> nat \<Rightarrow> nat option" where
  "findItem key cStr [] idx = None"
| "findItem key cStr (c # cs) idx =
     (if key c = cStr then Some idx else findItem key cStr cs (Suc idx))"

text \<open>
  \<open>append(q.cidArray[:item], q.cidArray[(item+1):]...)\<close>: the capacity of the
  destination suffices, so the elements after \<open>item\<close> are moved one place down inside
  the same backing array; the slot at the old last index keeps its content.
\<close>

definition deleteAt :: "nat \<Rightarrow> nat \<Rightarrow> ref list \<Rightarrow> ref list" where
  "deleteAt item n A = take item A @ drop (Suc item) (take n A) @ drop (n - 1) A"

definition removeCid :: "string \<Rightarrow> pinger \<Rightarrow> pinger" where
  "removeCid cStr p =
     (let q1 = (cidQ p)\<lparr>cidMap := (cidMap (cidQ p))(cStr := None)\<rparr>;
          p1 = p\<lparr>cidQ := q1\<rparr>
      in if Len p1 = 1
         then (let (s, p2) = make0 p1 in p2\<lparr>cidQ := (cidQ p2)\<lparr>cidArray := s\<rparr>\<rparr>)
         else (case findItem (keyOf p1) cStr (elems p1 (cidArray q1)) 0 of
                 None \<Rightarrow> p1
               | Some item \<Rightarrow>
                   (let s = cidArray q1;
                        A = deleteAt item (len s) (arrays p1 (arr s))
                    in p1\<lparr>arrays := (arrays p1)(arr s := A),
                          cidQ := q1\<lparr>cidArray := s\<lparr>len := len s - 1\<rparr>\<rparr>\<rparr>)))"

text \<open>The elements the queue's slice shows.\<close>

definition queued :: "pinger \<Rightarrow> ref list" where
  "queued p = elems p (cidArray (cidQ p))"

section \<open>The pinger orchestrator's scan\<close>

text \<open>
  What the orchestrator reads from outside during one pass over the queue: the clock
  (\<open>time.Since\<close>) and the root context (\<open>p.ctx.Err()\<close>), each at the loop iteration
  given by its index.
\<close>

record tick_env =
  nowAt :: "nat \<Rightarrow> time"
  ctxErrAt :: "nat \<Rightarrow> bool"

datatype scan_end = Completed | Shutdown | IndexOutOfRange

text \<open>
  \<open>for _, c := range p.cidQ.cidArray\<close>, with \<open>inc\<close> for the method
  \<open>IncreasePingCounter\<close>: the slice header (backing array \<open>a\<close> and length) is read
  once, before the first iteration; each iteration reads the element at its index from
  the backing array as it is then. The send on \<open>pingTaskC\<close> appends to
  the channel's content (the workers drain it meanwhile). A read past the backing array
  cannot happen for a header taken from the queue; the model names it instead of leaving
  it unspecified.
\<close>

fun rangeLoop ::
  "(CidInfo \<Rightarrow> CidInfo) \<Rightarrow> tick_env \<Rightarrow> nat \<Rightarrow> nat list \<Rightarrow> pinger \<Rightarrow> scan_end \<times> pinger"
where
  "rangeLoop inc env a [] p = (Completed, p)"
| "rangeLoop inc env a (idx # rest) p =
     (if ctxErrAt env idx then (Shutdown, p)
      else if length (arrays p a) \<le> idx then (IndexOutOfRange, p)
      else
        (let c = arrays p a ! idx;
             cStr = keyOf p c
         in if nowAt env idx - NextPing (objs p c) < 0 then (Completed, p)
            else
              (let p1 = p\<lparr>objs := (objs p)(c := inc (objs p c))\<rparr>;
                   p2 = p1\<lparr>pingTaskC := pingTaskC p1 @ [c]\<rparr>;
                   p3 = (if GetPingCounter (objs p2 c) \<ge> rounds p2
                         then removeCid cStr p2 else p2)
               in rangeLoop inc env a rest p3)))"

definition scanQueue ::
  "(CidInfo \<Rightarrow> CidInfo) \<Rightarrow> tick_env \<Rightarrow> pinger \<Rightarrow> scan_end \<times> pinger" where
  "scanQueue inc env p =
     (let s = cidArray (cidQ p) in rangeLoop inc env (arr s) [0..<len s] p)"

text \<open>The objects that are due at instant \<open>t\<close> among those the queue shows.\<close>

definition dueAt :: "time \<Rightarrow> pinger \<Rightarrow> ref list" where
  "dueAt t p = filter (\<lambda>r. NextPing (objs p r) \<le> t) (queued p)"

text \<open>The state after the objects \<open>due\<close> were counted and sent, in that order, and
  nothing else was changed.\<close>

definition countDue :: "(CidInfo \<Rightarrow> CidInfo) \<Rightarrow> pinger \<Rightarrow> ref list \<Rightarrow> pinger" where
  "countDue inc p due =
     p\<lparr>objs := (\<lambda>r. if r \<in> set due then inc (objs p r) else objs p r),
       pingTaskC := pingTaskC p @ due\<rparr>"

section \<open>Probing a holder\<close>

text \<open>
  A context is given by the instant at which it is done (\<open>None\<close>: never); for the root
  context that is the instant of its cancellation. \<open>context.WithTimeout(parent, d)\<close>
  called at instant \<open>now\<close> is done at \<open>now + d\<close> or when the parent is done, whichever
  comes first.
\<close>

type_synonym "context" = "time option"

definition WithTimeout :: "context \<Rightarrow> duration \<Rightarrow> time \<Rightarrow> context" where
  "WithTimeout parent d now =
     (case parent of None \<Rightarrow> Some (now + d) | Some t \<Rightarrow> Some (min t (now + d)))"

definition second :: duration where
  "second = 1000000000"

definition millisecond :: duration where
  "millisecond = 1000000"

definition DialTimeout :: duration where
  "DialTimeout = 20 * second"

definition minIterTime :: duration where
  "minIterTime = 500 * millisecond"

definition maxDialAttempts :: nat where
  "maxDialAttempts = 3"

text \<open>
  Package \<open>p2p\<close> is outside the files at hand: its error classifier and its three tags
  are parameters.
\<close>

record p2p =
  ParseConError :: "string \<Rightarrow> string"
  DialErrorConnectionRefused :: string
  DialErrorStreamReset :: string
  NoConnError :: string

text \<open>
  The host as \<open>PingPRHolder\<close> uses it. \<open>Connect\<close> gets the context, the peer, the
  number of the attempt and the instant of the call, and answers with its error (if
  any) and the time it took; \<open>GetProvidersFromPeer\<close> answers with the providers, its
  error and the time it took.
\<close>

record host =
  Connect :: "context \<Rightarrow> peerID \<Rightarrow> nat \<Rightarrow> time \<Rightarrow> string option \<times> duration"
  GetProvidersFromPeer :: "context \<Rightarrow> peerID \<Rightarrow> cid \<Rightarrow> peerID list \<times> string option \<times> duration"
  ClosePeer :: "peerID \<Rightarrow> string option"

text \<open>One call of \<open>Connect\<close> as the probe made it.\<close>

record dial =
  dialCtx :: "context"
  dialStart :: time
  dialErr :: "string option"

record probe =
  active :: bool
  hasRecords :: bool
  connError :: string
  clock :: time

text \<open>
  The attempt loop of \<open>PingPRHolder\<close>, over the attempt numbers that are left; it
  returns the calls of \<open>Connect\<close> it made, in order, and the probe's variables.
\<close>

fun dialLoop ::
  "p2p \<Rightarrow> host \<Rightarrow> context \<Rightarrow> context \<Rightarrow> CidInfo \<Rightarrow> peerID \<Rightarrow> nat list \<Rightarrow> probe \<Rightarrow> dial list \<times> probe"
where
  "dialLoop P h rootCtx pingCtx c pid [] st = ([], st)"
| "dialLoop P h rootCtx pingCtx c pid (att # rest) st =
     (let (err, d) = Connect h pingCtx pid att (clock st);
          call = \<lparr>dialCtx = pingCtx, dialStart = clock st, dialErr = err\<rparr>;
          st1 = st\<lparr>clock := clock st + d\<rparr>
      in case err of
           Some e \<Rightarrow>
             (let st2 = st1\<lparr>connError := ParseConError P e\<rparr>
              in if connError st2 \<noteq> DialErrorConnectionRefused P
                    \<and> connError st2 \<noteq> DialErrorStreamReset P
                 then ([call], st2)
                 else (let (calls, st3) = dialLoop P h rootCtx pingCtx c pid rest st2
                       in (call # calls, st3)))
         | None \<Rightarrow>
             (let st2 = st1\<lparr>active := True, connError := NoConnError P\<rparr>;
                  (provs, perr, d2) = GetProvidersFromPeer h rootCtx pid (CID c);
                  st3 = st2\<lparr>hasRecords := (hasRecords st2 \<or> Creator c \<in> set provs),
                            clock := clock st2 + d2\<rparr>;
                  cerr = ClosePeer h pid
              in ([call], st3)))"

text \<open>Modelled from the spec: the constructor of PRPingResults of package
  \<open>models\<close>, in the eight-argument form the pinger calls.\<close>

definition NewPRPingResults ::
  "cid \<Rightarrow> peerID \<Rightarrow> int \<Rightarrow> time \<Rightarrow> duration \<Rightarrow> bool \<Rightarrow> bool \<Rightarrow> string \<Rightarrow> PRPingResults" where
  "NewPRPingResults c pid round tstart fetchTime act hasRec cErr =
     \<lparr>prCid = c, prPeer = pid, prRound = round, prPublicationTime = 0,
      prFetchTime = tstart, prFetchDuration = fetchTime, Active = act,
      HasRecords = hasRec, RecordsWithMAddrs = False, ConnError = cErr\<rparr>"

text \<open>
  \<open>PingPRHolder\<close>, entered at instant \<open>now\<close>: the context of the dials is made once,
  before the loop, from the root context; \<open>tstart\<close> is read at the same instant.
\<close>

definition pingDials :: "p2p \<Rightarrow> host \<Rightarrow> context \<Rightarrow> time \<Rightarrow> CidInfo \<Rightarrow> peerID \<Rightarrow> dial list \<times> probe" where
  "pingDials P h rootCtx now c pid =
     (let pingCtx = WithTimeout rootCtx DialTimeout now
      in dialLoop P h rootCtx pingCtx c pid [0..<maxDialAttempts]
           \<lparr>active = False, hasRecords = False, connError = [], clock = now\<rparr>)"

definition PingPRHolder ::
  "p2p \<Rightarrow> host \<Rightarrow> context \<Rightarrow> time \<Rightarrow> CidInfo \<Rightarrow> int \<Rightarrow> peerID \<Rightarrow> PRPingResults" where
  "PingPRHolder P h rootCtx now c round pid =
     (let tstart = now;
          (calls, st) = pingDials P h rootCtx now c pid;
          fetchTime = clock st - tstart
      in NewPRPingResults (CID c) pid round tstart fetchTime
           (active st) (hasRecords st) (connError st))"

text \<open>The time a dial that starts at \<open>dialStart\<close> has before its context is done.\<close>

definition budget :: "dial \<Rightarrow> duration option" where
  "budget d = (case dialCtx d of None \<Rightarrow> None | Some t \<Rightarrow> Some (t - dialStart d))"

text \<open>A failed dial after which the loop goes on to the next attempt.\<close>

definition retryable :: "p2p \<Rightarrow> dial \<Rightarrow> bool" where
  "retryable P d =
     (case dialErr d of
        None \<Rightarrow> False
      | Some e \<Rightarrow> ParseConError P e = DialErrorConnectionRefused P
                  \<or> ParseConError P e = DialErrorStreamReset P)"

section \<open>The database client's channels and persisters\<close>

datatype kind = CidInfoK | PeerInfoK | FetchResultK | PingResultsK

datatype status = Running | ExitedDone | ExitedCtx

text \<open>
  The four write channels with what they hold, whether each is closed, the persister
  goroutines that \<open>runPersisters\<close> started (each is in its \<open>for { select }\<close> loop
  until it returns through the \<open>doneC\<close> case or the \<open>ctx.Done()\<close> case), and whether the
  SQL handle is closed. \<open>doneC\<close> has no buffer: a send on it completes by handing the
  value to one goroutine that receives from it.
\<close>

record DBClient =
  cidInfoC :: "CidInfo list"
  peerInfoC :: "(cid \<times> PeerInfo) list"
  fetchResultC :: "CidFetchResults list"
  pingResultsC :: "PRPingResults list list"
  closedC :: "kind \<Rightarrow> bool"
  persisters :: "(kind \<times> status) list"
  sqlClosed :: bool

definition maxPersisters :: nat where
  "maxPersisters = 1"

definition runPersisters :: "(kind \<times> status) list" where
  "runPersisters =
     concat (map (\<lambda>persister. [(CidInfoK, Running), (PeerInfoK, Running),
                                (FetchResultK, Running), (PingResultsK, Running)])
                 [1..<Suc maxPersisters])"

definition NewDBClient :: DBClient where
  "NewDBClient =
     \<lparr>cidInfoC = [], peerInfoC = [], fetchResultC = [], pingResultsC = [],
      closedC = (\<lambda>k. False), persisters = runPersisters, sqlClosed = False\<rparr>"

datatype 'a outcome = Blocks | Panics | Returns 'a

text \<open>\<open>db.fetchResultC <- f\<close>: a send on a closed channel panics.\<close>

definition AddFetchResult :: "CidFetchResults \<Rightarrow> DBClient \<Rightarrow> DBClient outcome" where
  "AddFetchResult f db =
     (if closedC db FetchResultK then Panics
      else Returns (db\<lparr>fetchResultC := fetchResultC db @ [f]\<rparr>))"

text \<open>The persisters that can take a value from \<open>doneC\<close>, by their position.\<close>

definition receivers :: "DBClient \<Rightarrow> nat list" where
  "receivers db = filter (\<lambda>i. snd (persisters db ! i) = Running) [0..<length (persisters db)]"

text \<open>
  \<open>db.doneC <- struct{}{}\<close>: with no receiver left the send never completes; otherwise
  one of the receivers (the scheduler's choice \<open>pick\<close>) takes the value and returns.
\<close>

definition sendDone :: "nat \<Rightarrow> DBClient \<Rightarrow> DBClient outcome" where
  "sendDone pick db =
     (case receivers db of
        [] \<Rightarrow> Blocks
      | r # rs \<Rightarrow>
          (let who = (r # rs) ! (pick mod length (r # rs))
           in Returns (db\<lparr>persisters :=
                (persisters db)[who := (fst (persisters db ! who), ExitedDone)]\<rparr>)))"

text \<open>\<open>close(ch)\<close> of a closed channel panics.\<close>

definition closeChan :: "kind \<Rightarrow> DBClient \<Rightarrow> DBClient outcome" where
  "closeChan k db =
     (if closedC db k then Panics else Returns (db\<lparr>closedC := (closedC db)(k := True)\<rparr>))"

definition andThen :: "'a outcome \<Rightarrow> ('a \<Rightarrow> 'b outcome) \<Rightarrow> 'b outcome" where
  "andThen x f = (case x of Blocks \<Rightarrow> Blocks | Panics \<Rightarrow> Panics | Returns a \<Rightarrow> f a)"

definition Close :: "nat \<Rightarrow> DBClient \<Rightarrow> DBClient outcome" where
  "Close pick db =
     andThen (sendDone pick db) (\<lambda>db1.
     andThen (closeChan CidInfoK db1) (\<lambda>db2.
     andThen (closeChan PeerInfoK db2) (\<lambda>db3.
     andThen (closeChan FetchResultK db3) (\<lambda>db4.
     andThen (closeChan PingResultsK db4) (\<lambda>db5.
     Returns (db5\<lparr>sqlClosed := True\<rparr>))))))"

text \<open>The persisters that have left through the \<open>doneC\<close> case, and those still in
  their loop.\<close>

definition sawDone :: "DBClient \<Rightarrow> kind list" where
  "sawDone db = map fst (filter (\<lambda>p. snd p = ExitedDone) (persisters db))"

definition stillRunning :: "DBClient \<Rightarrow> kind list" where
  "stillRunning db = map fst (filter (\<lambda>p. snd p = Running) (persisters db))"

section \<open>The pinger worker's round\<close>

text \<open>The DHT as the worker uses it; each call answers with its results, its error
  and the time it took. The hops are (total, to closest).\<close>

record dht =
  LookupForProviders :: "context \<Rightarrow> cid \<Rightarrow> peerID list \<times> string option \<times> duration"
  GetClosestPeers :: "context \<Rightarrow> cid \<Rightarrow> (int \<times> int) \<times> peerID list \<times> string option \<times> duration"

text \<open>Modelled from the spec: the constructor of CidFetchResults of package
  \<open>models\<close> in the two-argument form the pinger calls ("open a fresh CidFetchResults
  at the current instant"), and its methods \<open>AddClosestPeer\<close> and \<open>AddPRPingResults\<close>.\<close>

definition NewCidFetchResultsAt :: "cid \<Rightarrow> int \<Rightarrow> time \<Rightarrow> CidFetchResults" where
  "NewCidFetchResultsAt c round now =
     \<lparr>frCid = c, frRound = round, frK = 0, frPublicationTime = 0, StartTime = now,
      FinishTime = 0, IsRetrievable = False, TotalHops = 0, HopsToClosest = 0,
      HopsTreeDepth = 0, MinHopsToClosest = 0, FindProvDuration = 0,
      GetClosePeersDuration = 0, ClosestPeers = [], PRPingResultsL = [], DoneC = 0\<rparr>"

definition AddClosestPeer :: "peerID \<Rightarrow> CidFetchResults \<Rightarrow> CidFetchResults" where
  "AddClosestPeer pr f = f\<lparr>ClosestPeers := ClosestPeers f @ [pr]\<rparr>"

definition AddPRPingResults :: "PRPingResults \<Rightarrow> CidFetchResults \<Rightarrow> CidFetchResults" where
  "AddPRPingResults r f = f\<lparr>PRPingResultsL := PRPingResultsL f @ [r]\<rparr>"

text \<open>
  One task of the worker: the object \<open>r\<close> taken from \<open>pingTaskC\<close> at instant \<open>now\<close>.
  \<open>roundResults\<close> is the CidFetchResults the worker fills and \<open>pingRound\<close> the task
  with its effects on the objects and on the database client's channel. The sub-tasks
  run in parallel from \<open>now\<close> on and are joined (\<open>wg.Wait()\<close>), so the instant after
  the join is \<open>now\<close> plus the longest of their durations; their results are put
  together in the order of the program text.
\<close>

definition roundResults ::
  "p2p \<Rightarrow> host \<Rightarrow> dht \<Rightarrow> context \<Rightarrow> time \<Rightarrow> CidInfo \<Rightarrow> CidFetchResults" where
  "roundResults P h D rootCtx now c =
     (let pingCounter = GetPingCounter c;
          cidFetchRes = NewCidFetchResultsAt (CID c) pingCounter now;
          (providers, lerr, d1) = LookupForProviders D rootCtx (CID c);
          fr1 = cidFetchRes\<lparr>FindProvDuration := d1,
                             IsRetrievable := (Creator c \<in> set providers)\<rparr>;
          (hops, closestPeers, cerr, d2) = GetClosestPeers D rootCtx (CID c);
          fr2 = fold AddClosestPeer closestPeers
                  (fr1\<lparr>TotalHops := fst hops, HopsToClosest := snd hops,
                        GetClosePeersDuration := d2\<rparr>);
          pings = map (\<lambda>peerInfo. PingPRHolder P h rootCtx now c pingCounter (peerId peerInfo))
                      (PRHolders c);
          fr3 = fold AddPRPingResults pings fr2;
          joined = now + fold max (d1 # d2 # map prFetchDuration pings) 0
      in fr3\<lparr>FinishTime := joined\<rparr>)"

definition pingRound ::
  "p2p \<Rightarrow> host \<Rightarrow> dht \<Rightarrow> context \<Rightarrow> time \<Rightarrow> ref \<Rightarrow> pinger \<times> DBClient \<Rightarrow> (pinger \<times> DBClient) outcome"
where
  "pingRound P h D rootCtx now r st =
     (let p = fst st; db = snd st;
          c = objs p r;
          cidFetchRes = roundResults P h D rootCtx now c
      in andThen (AddFetchResult cidFetchRes db) (\<lambda>db'. Returns (p, db')))"

definition returned :: "'a outcome \<Rightarrow> 'a option" where
  "returned x = (case x of Returns a \<Rightarrow> Some a | Blocks \<Rightarrow> None | Panics \<Rightarrow> None)"

section \<open>The publisher and its message listener\<close>

datatype msgType = PUT_VALUE | GET_VALUE | ADD_PROVIDER | GET_PROVIDERS | FIND_NODE | PING

record MsgNotification =
  msgTyp :: msgType
  msgKey :: string
  RemotePeer :: peerID
  QueryTime :: time
  QueryDuration :: duration
  Error :: "string option"

record lookupMetrics =
  lmTotalHops :: int
  lmTreeDepth :: int
  lmMinHopsToClosest :: int

text \<open>
  What the publisher calls outside the files at hand: \<open>cid.Cast\<close>, the DHT host's
  peerstore readers and its \<open>ProvideCid\<close>, which answers with the request time, the
  lookup metrics and its error, and sends the listed notifications to the listener
  while it runs.
\<close>

record dhtHost =
  Cast :: "string \<Rightarrow> cid option"
  hostID :: peerID
  GetMAddrsOfPeer :: "peerID \<Rightarrow> string list"
  GetUserAgentOfPeer :: "peerID \<Rightarrow> string"
  ProvideCid :: "CidInfo \<Rightarrow> (duration \<times> lookupMetrics option \<times> string option) \<times> MsgNotification list"

record CidPublisher =
  pubK :: int
  pubReqInterval :: duration
  CidPingTime :: duration
  dhtProvide :: string

text \<open>
  The state the workers and the listener share: the CidSet and the map of round-0
  results. Each map entry stands for the object the stored pointer refers to; a write
  through the pointer is an update of the entry.
\<close>

record tracker =
  cidSet :: "string \<rightharpoonup> CidInfo"
  firstCidFetchRes :: "string \<rightharpoonup> CidFetchResults"

text \<open>Modelled from the spec: \<open>addCid\<close> and \<open>getCid\<close> of the CidSet ("a mapping from
  CID key-form to CidInfo with concurrent-safe insert-if-absent and lookup"), declared
  outside the files at hand.\<close>

definition addCid :: "CidInfo \<Rightarrow> (string \<rightharpoonup> CidInfo) \<Rightarrow> (string \<rightharpoonup> CidInfo)" where
  "addCid c m = (case m (CID c) of None \<Rightarrow> m(CID c \<mapsto> c) | Some old \<Rightarrow> m)"

definition getCid :: "(string \<rightharpoonup> CidInfo) \<Rightarrow> string \<Rightarrow> CidInfo option" where
  "getCid m k = m k"

text \<open>Modelled from the spec: the constructors and methods of package \<open>models\<close> that
  the publisher calls: \<open>NewCidInfo\<close> ("construct CidInfo with empty PRHolders"),
  \<open>NewCidFetchResults\<close> in its four-argument form, \<open>NewPRPingResults\<close> in its
  ten-argument form, \<open>NewPeerInfo\<close>, \<open>AddPRHolder\<close> ("add it to CidInfo's PRHolders",
  which are "append-only during round 0") and \<open>IsDone\<close> ("the fetch-result's expected
  count is met").\<close>

definition NewCidInfo :: "cid \<Rightarrow> int \<Rightarrow> duration \<Rightarrow> duration \<Rightarrow> string \<Rightarrow> peerID \<Rightarrow> CidInfo" where
  "NewCidInfo c k reqInt studyDur provOp creator =
     \<lparr>CID = c, Creator = creator, K = k, ProvOp = provOp, ReqInterval = reqInt,
      StudyDuration = studyDur, PublicationTime = 0, ProvideTime = 0, PRHolders = [],
      PingCounter = 0, NextPing = 0, PRFetchResults = []\<rparr>"

definition NewCidFetchResults :: "cid \<Rightarrow> time \<Rightarrow> int \<Rightarrow> int \<Rightarrow> CidFetchResults" where
  "NewCidFetchResults c pubTime round k =
     \<lparr>frCid = c, frRound = round, frK = k, frPublicationTime = pubTime, StartTime = pubTime,
      FinishTime = 0, IsRetrievable = False, TotalHops = 0, HopsToClosest = 0,
      HopsTreeDepth = 0, MinHopsToClosest = 0, FindProvDuration = 0,
      GetClosePeersDuration = 0, ClosestPeers = [], PRPingResultsL = [], DoneC = 0\<rparr>"

definition NewPRPingResults10 ::
  "cid \<Rightarrow> peerID \<Rightarrow> int \<Rightarrow> time \<Rightarrow> time \<Rightarrow> duration \<Rightarrow> bool \<Rightarrow> bool \<Rightarrow> bool \<Rightarrow> string \<Rightarrow> PRPingResults" where
  "NewPRPingResults10 c pid round pubTime fetchTime fetchDur act hasRec withMAddrs cErr =
     \<lparr>prCid = c, prPeer = pid, prRound = round, prPublicationTime = pubTime,
      prFetchTime = fetchTime, prFetchDuration = fetchDur, Active = act,
      HasRecords = hasRec, RecordsWithMAddrs = withMAddrs, ConnError = cErr\<rparr>"

definition NewPeerInfo :: "peerID \<Rightarrow> string list \<Rightarrow> string \<Rightarrow> PeerInfo" where
  "NewPeerInfo pid maddrs ua = \<lparr>peerId = pid, MultiAddrs = maddrs, UserAgent = ua\<rparr>"

definition AddPRHolder :: "PeerInfo \<Rightarrow> CidInfo \<Rightarrow> CidInfo" where
  "AddPRHolder h c = c\<lparr>PRHolders := PRHolders c @ [h]\<rparr>"

definition IsDone :: "CidFetchResults \<Rightarrow> bool" where
  "IsDone f = (int (length (PRPingResultsL f)) = frK f)"

definition GetPublicationTime :: "CidFetchResults \<Rightarrow> time" where
  "GetPublicationTime f = frPublicationTime f"

text \<open>\<open>cid.Undef\<close>, which \<open>cid.Cast\<close> returns beside its error: its multihash is empty.\<close>

definition Undef :: cid where
  "Undef = []"

definition castedCidOf :: "dhtHost \<Rightarrow> MsgNotification \<Rightarrow> cid" where
  "castedCidOf H n = (case Cast H (msgKey n) of None \<Rightarrow> Undef | Some c \<Rightarrow> c)"

datatype fatal = CidInfoNotFound | CidFetcherNotFound

text \<open>
  The listener's handling of one notification taken from \<open>msgNotChannel\<close>. A missing
  CidInfo ends in \<open>log.Panic\<close>; a missing round-0 slot ends in the panic of the type
  assertion on the absent value. The send on \<open>DoneC\<close> is counted in the slot.
\<close>

definition addProviderMsg :: "p2p \<Rightarrow> dhtHost \<Rightarrow> MsgNotification \<Rightarrow> tracker \<Rightarrow> fatal + tracker" where
  "addProviderMsg P H msgNot s =
     (let castedCid = castedCidOf H msgNot
      in case msgTyp msgNot of
           ADD_PROVIDER \<Rightarrow>
             (let (act, connErr) =
                    (case Error msgNot of
                       Some e \<Rightarrow> (False, ParseConError P e)
                     | None \<Rightarrow> (True, NoConnError P))
              in case getCid (cidSet s) castedCid of
                   None \<Rightarrow> Inl CidInfoNotFound
                 | Some cidInfo \<Rightarrow>
                     (case firstCidFetchRes s castedCid of
                        None \<Rightarrow> Inl CidFetcherNotFound
                      | Some cidFetRes \<Rightarrow>
                          (let cidFetRes1 =
                                 AddPRPingResults
                                   (NewPRPingResults10 castedCid (RemotePeer msgNot) 0
                                      (GetPublicationTime cidFetRes) (QueryTime msgNot)
                                      (QueryDuration msgNot) act False False connErr)
                                   cidFetRes;
                               prHolderInfo =
                                 NewPeerInfo (RemotePeer msgNot)
                                   (GetMAddrsOfPeer H (RemotePeer msgNot))
                                   (GetUserAgentOfPeer H (RemotePeer msgNot));
                               cidInfo1 = AddPRHolder prHolderInfo cidInfo;
                               cidFetRes2 =
                                 (if IsDone cidFetRes1
                                  then cidFetRes1\<lparr>DoneC := Suc (DoneC cidFetRes1)\<rparr>
                                  else cidFetRes1)
                           in Inr (s\<lparr>cidSet := (cidSet s)(castedCid \<mapsto> cidInfo1),
                                     firstCidFetchRes :=
                                       (firstCidFetchRes s)(castedCid \<mapsto> cidFetRes2)\<rparr>))))
         | _ \<Rightarrow> Inr s)"

text \<open>The listener's loop over the notifications that arrive, in order.\<close>

fun addProviderMsgListener :: "p2p \<Rightarrow> dhtHost \<Rightarrow> MsgNotification list \<Rightarrow> tracker \<Rightarrow> fatal + tracker" where
  "addProviderMsgListener P H [] s = Inr s"
| "addProviderMsgListener P H (n # ns) s =
     (case addProviderMsg P H n s of
        Inl f \<Rightarrow> Inl f
      | Inr s' \<Rightarrow> addProviderMsgListener P H ns s')"

text \<open>
  The worker's branch for one CID taken from \<open>cidChannel\<close> at instant \<open>pubTime\<close>, in
  two parts: what it does before it calls \<open>ProvideCid\<close>, and the call with the
  listener handling the notifications the call sends.
\<close>

definition beforeProvide ::
  "CidPublisher \<Rightarrow> dhtHost \<Rightarrow> time \<Rightarrow> cid \<Rightarrow> tracker \<Rightarrow> CidInfo \<times> CidFetchResults \<times> tracker" where
  "beforeProvide pub H pubTime nextCid s =
     (let cidStr = nextCid;
          cidInfo = NewCidInfo nextCid (pubK pub) (pubReqInterval pub) (CidPingTime pub)
                      (dhtProvide pub) (hostID H);
          s1 = s\<lparr>cidSet := addCid cidInfo (cidSet s)\<rparr>;
          fetchRes = NewCidFetchResults nextCid pubTime 0 (pubK pub);
          s2 = s1\<lparr>firstCidFetchRes := (firstCidFetchRes s1)(cidStr \<mapsto> fetchRes)\<rparr>
      in (cidInfo, fetchRes, s2))"

definition provideAndListen ::
  "p2p \<Rightarrow> CidPublisher \<Rightarrow> dhtHost \<Rightarrow> time \<Rightarrow> cid \<Rightarrow> tracker \<Rightarrow> fatal + tracker" where
  "provideAndListen P pub H pubTime nextCid s =
     (let (cidInfo, fetchRes, s2) = beforeProvide pub H pubTime nextCid s;
          (answer, sent) = ProvideCid H cidInfo
      in addProviderMsgListener P H sent s2)"

text \<open>What a step of the listener leaves under a key: the holders of the CidInfo and
  the ping results of the round-0 slot (\<open>None\<close> after a fatal end or for a missing key).\<close>

definition holdersOf :: "fatal + tracker \<Rightarrow> string \<Rightarrow> PeerInfo list option" where
  "holdersOf r k = (case r of Inl f \<Rightarrow> None | Inr s \<Rightarrow> map_option PRHolders (cidSet s k))"

definition pingsOf :: "fatal + tracker \<Rightarrow> string \<Rightarrow> PRPingResults list option" where
  "pingsOf r k = (case r of Inl f \<Rightarrow> None | Inr s \<Rightarrow> map_option PRPingResultsL (firstCidFetchRes s k))"

section \<open>The JSON file source\<close>

text \<open>
  Modelled from the spec: the record of a provider as the files carry it (section 6:
  CID, ID, Creator, ProvideTime, PublicationTime, UserAgent, Addresses), its struct
  being declared outside the files at hand. \<open>Addresses\<close> is a Go slice: \<open>None\<close> is the
  nil slice, which \<open>reflect.DeepEqual\<close> tells from an empty one.
\<close>

record EncapsulatedJSONProviderRecord =
  jID :: string
  jCID :: string
  jCreator :: string
  jProvideTime :: string
  jPublicationTime :: string
  jUserAgent :: string
  jAddresses :: "string list option"

type_synonym ProviderRecords = "EncapsulatedJSONProviderRecord list"

text \<open>
  A record as a file's text gives it: either a JSON object that decodes into the
  struct, taken with the value that decoding it into a zero struct leaves (\<open>Fits\<close>), or
  a JSON value that does not (\<open>Mistyped\<close>: not an object, or an object with a field of
  the wrong JSON type, a number for the string \<open>ID\<close>, say).

  A file is a sequence of top-level JSON values. A value is text that does not decode
  into \<open>ProviderRecords\<close> (\<open>Malformed\<close>), or text that starts with a closing bracket or
  brace (\<open>StrayClose\<close>), or an object, which may or may not have the key
  \<open>EncapsulatedJSONProviderRecords\<close> with its array of records. A name of the file
  system leads to no file, to a file whose reading fails, or to its content.
\<close>

datatype json_record = Fits EncapsulatedJSONProviderRecord | Mistyped

datatype json_doc = Malformed | StrayClose | Document "json_record list option"

datatype file_content = Unreadable | Content "json_doc list"

type_synonym fs = "string \<rightharpoonup> file_content"

datatype open_error = OpenFailed | ReadFailed | UnmarshalFailed | DecodeFailed

text \<open>
  Decoding the array of a document into a slice without elements: a record that does
  not fit makes the decoding return an error, whatever the other records are.
\<close>

fun decodeRecords :: "json_record list \<Rightarrow> ProviderRecords option" where
  "decodeRecords [] = Some []"
| "decodeRecords (Mistyped # js) = None"
| "decodeRecords (Fits r # js) =
     (case decodeRecords js of None \<Rightarrow> None | Some rs \<Rightarrow> Some (r # rs))"

text \<open>The records of an array that fit, in order.\<close>

fun fitted :: "json_record list \<Rightarrow> ProviderRecords" where
  "fitted [] = []"
| "fitted (Mistyped # js) = fitted js"
| "fitted (Fits r # js) = r # fitted js"

text \<open>
  \<open>json.Unmarshal\<close> of a whole file into a fresh variable: the bytes must be exactly
  one JSON value; an object without the key leaves the variable without records.
\<close>

fun Unmarshal :: "json_doc list \<Rightarrow> ProviderRecords option" where
  "Unmarshal [Document None] = Some []"
| "Unmarshal [Document (Some js)] = decodeRecords js"
| "Unmarshal ds = None"

record JsonFileCIDSource =
  filename :: string
  records :: ProviderRecords
  iterCalls :: nat

text \<open>\<open>initializeIter\<close>: the closure's counter \<open>i\<close> starts at \<open>-1\<close> and is incremented
  at the start of each call; \<open>iterCalls\<close> is \<open>i + 1\<close>, the index the next call reads.\<close>

definition initializeIter :: "JsonFileCIDSource \<Rightarrow> JsonFileCIDSource" where
  "initializeIter src = src\<lparr>iterCalls := 0\<rparr>"

definition OpenSimpleJSONFile :: "fs \<Rightarrow> string \<Rightarrow> open_error + JsonFileCIDSource" where
  "OpenSimpleJSONFile F name =
     (case F name of
        None \<Rightarrow> Inl OpenFailed
      | Some Unreadable \<Rightarrow> Inl ReadFailed
      | Some (Content byteValue) \<Rightarrow>
          (case Unmarshal byteValue of
             None \<Rightarrow> Inl UnmarshalFailed
           | Some recs \<Rightarrow>
               Inr (initializeIter \<lparr>filename = name, records = recs, iterCalls = 0\<rparr>)))"

text \<open>The loop of \<open>OpenMultipleSimpleJSONFiles\<close>: \<open>records\<close> is declared inside the
  loop, so each file is unmarshalled into a fresh variable.\<close>

fun simpleFilesLoop :: "fs \<Rightarrow> string list \<Rightarrow> ProviderRecords \<Rightarrow> open_error + ProviderRecords" where
  "simpleFilesLoop F [] recordsIn = Inr recordsIn"
| "simpleFilesLoop F (name # names) recordsIn =
     (case F name of
        None \<Rightarrow> Inl OpenFailed
      | Some Unreadable \<Rightarrow> Inl ReadFailed
      | Some (Content byteValue) \<Rightarrow>
          (case Unmarshal byteValue of
             None \<Rightarrow> Inl UnmarshalFailed
           | Some recs \<Rightarrow> simpleFilesLoop F names (recordsIn @ recs)))"

definition OpenMultipleSimpleJSONFiles :: "fs \<Rightarrow> string list \<Rightarrow> open_error + JsonFileCIDSource" where
  "OpenMultipleSimpleJSONFiles F filenames =
     (case simpleFilesLoop F filenames [] of
        Inl e \<Rightarrow> Inl e
      | Inr recordsIn \<Rightarrow>
          Inr (initializeIter \<lparr>filename = [], records = recordsIn, iterCalls = 0\<rparr>))"

text \<open>
  \<open>OpenEncodedJSONFile\<close> declares \<open>records\<close> before its loop and decodes every
  document into it. Decoding an array into a slice that has elements writes into
  those elements and into the arrays behind their \<open>Addresses\<close>, which the records
  appended to \<open>filteredRecords\<close> before share: what this leaves in \<open>records\<close> and in
  \<open>filteredRecords\<close> depends on the text of the document and on the capacities of the
  slices. It is a parameter of the reader: for the value of the file at position \<open>k\<close>,
  the elements of \<open>records\<close> and the records of \<open>filteredRecords\<close> before the decoding,
  it gives both after it.
\<close>

type_synonym reuse =
  "nat \<Rightarrow> ProviderRecords \<Rightarrow> ProviderRecords \<Rightarrow> ProviderRecords \<times> ProviderRecords"

text \<open>
  The loop \<open>for decoder.More() { decoder.Decode(&records) ... }\<close>, at the value of
  position \<open>k\<close>. \<open>decoder.More()\<close> is false at the end of the file and before text that
  starts with a closing bracket or brace: the loop ends there without an error. An
  object without the key sets no field, so \<open>records\<close> keeps its elements and they are
  appended again.
\<close>

fun decodeLoop ::
  "reuse \<Rightarrow> nat \<Rightarrow> json_doc list \<Rightarrow> ProviderRecords \<Rightarrow> ProviderRecords \<Rightarrow> open_error + ProviderRecords"
where
  "decodeLoop L k [] recs filteredRecords = Inr filteredRecords"
| "decodeLoop L k (StrayClose # ds) recs filteredRecords = Inr filteredRecords"
| "decodeLoop L k (Malformed # ds) recs filteredRecords = Inl DecodeFailed"
| "decodeLoop L k (Document None # ds) recs filteredRecords =
     decodeLoop L (Suc k) ds recs (filteredRecords @ recs)"
| "decodeLoop L k (Document (Some js) # ds) recs filteredRecords =
     (case decodeRecords js of
        None \<Rightarrow> Inl DecodeFailed
      | Some rs \<Rightarrow>
          if recs = [] then decodeLoop L (Suc k) ds rs (filteredRecords @ rs)
          else (let (recs', filtered') = L k recs filteredRecords
                in decodeLoop L (Suc k) ds recs' (filtered' @ recs')))"

text \<open>A file whose reading fails gives \<open>decoder.More()\<close> nothing to peek at: the loop
  is not entered.\<close>

definition OpenEncodedJSONFile :: "reuse \<Rightarrow> fs \<Rightarrow> string \<Rightarrow> open_error + JsonFileCIDSource" where
  "OpenEncodedJSONFile L F name =
     (case F name of
        None \<Rightarrow> Inl OpenFailed
      | Some f \<Rightarrow>
          (case decodeLoop L 0 (case f of Unreadable \<Rightarrow> [] | Content ds \<Rightarrow> ds) [] [] of
             Inl e \<Rightarrow> Inl e
           | Inr filteredRecords \<Rightarrow>
               Inr (initializeIter \<lparr>filename = name, records = filteredRecords, iterCalls = 0\<rparr>)))"

text \<open>The records of a source that was opened, \<open>None\<close> when the opening failed.\<close>

definition recordsOf :: "open_error + JsonFileCIDSource \<Rightarrow> ProviderRecords option" where
  "recordsOf r = (case r of Inl e \<Rightarrow> None | Inr src \<Rightarrow> Some (records src))"

text \<open>
  The parsers of the libraries \<open>GetNewCid\<close> calls (\<open>cid.Parse\<close>, \<open>peer.Decode\<close>,
  \<open>time.ParseDuration\<close>, \<open>time.Parse\<close> with the layout constant, \<open>ma.NewMultiaddr\<close>);
  \<open>None\<close> is the error.
\<close>

record parsers =
  cidParse :: "string \<Rightarrow> cid option"
  peerDecode :: "string \<Rightarrow> peerID option"
  ParseDuration :: "string \<Rightarrow> duration option"
  timeParse :: "string \<Rightarrow> time option"
  NewMultiaddr :: "string \<Rightarrow> string option"

text \<open>\<open>TrackableCid\<close> is declared outside the files at hand; its fields are the
  arguments of \<open>NewTrackableCid\<close>.\<close>

record TrackableCid =
  tID :: peerID
  tCID :: cid
  tCreator :: peerID
  tMultiAddrs :: "string list"
  tPublicationTime :: time
  tProvideTime :: duration
  tUserAgent :: string

definition NewTrackableCid ::
  "peerID \<Rightarrow> cid \<Rightarrow> peerID \<Rightarrow> string list \<Rightarrow> time \<Rightarrow> duration \<Rightarrow> string \<Rightarrow> TrackableCid" where
  "NewTrackableCid pid c creator maddrs pubTime provTime ua =
     \<lparr>tID = pid, tCID = c, tCreator = creator, tMultiAddrs = maddrs,
      tPublicationTime = pubTime, tProvideTime = provTime, tUserAgent = ua\<rparr>"

text \<open>The lines \<open>log.Errorf\<close> writes in \<open>GetNewCid\<close>.\<close>

datatype diagnostic =
  CouldNotConvertCid | CouldNotConvertPid | CouldNotConvertCreator
  | ErrorParsingProvideTime | ErrorParsingPublicationTime

definition zeroRecord :: EncapsulatedJSONProviderRecord where
  "zeroRecord =
     \<lparr>jID = [], jCID = [], jCreator = [], jProvideTime = [], jPublicationTime = [],
      jUserAgent = [], jAddresses = None\<rparr>"

text \<open>The inner loop over \<open>pr.Addresses\<close>: an address that does not parse is passed
  over, nothing is logged.\<close>

fun multiaddresses :: "parsers \<Rightarrow> string list \<Rightarrow> string list" where
  "multiaddresses P [] = []"
| "multiaddresses P (a # as) =
     (case NewMultiaddr P a of
        None \<Rightarrow> multiaddresses P as
      | Some m \<Rightarrow> m # multiaddresses P as)"

definition addressesOf :: "EncapsulatedJSONProviderRecord \<Rightarrow> string list" where
  "addressesOf pr = (case jAddresses pr of None \<Rightarrow> [] | Some as \<Rightarrow> as)"

text \<open>
  The loop of \<open>GetNewCid\<close> from the iterator's position \<open>n\<close> on. A call of the
  iterator past the end returns the zero record, and a record equal to the zero record
  ends the loop. The result comes with the iterator's new position and the lines logged.
\<close>

function getLoop ::
  "parsers \<Rightarrow> ProviderRecords \<Rightarrow> nat \<Rightarrow> diagnostic list \<Rightarrow> (string + TrackableCid) \<times> nat \<times> diagnostic list"
where
  "getLoop P recs n lg =
     (if length recs \<le> n then (Inl ''end of provider records'', Suc n, lg)
      else
        (let pr = recs ! n
         in if pr = zeroRecord then (Inl ''end of provider records'', Suc n, lg)
            else
              (case cidParse P (jCID pr) of
                 None \<Rightarrow> getLoop P recs (Suc n) (lg @ [CouldNotConvertCid])
               | Some newCid \<Rightarrow>
               (case peerDecode P (jID pr) of
                  None \<Rightarrow> getLoop P recs (Suc n) (lg @ [CouldNotConvertPid])
                | Some newPid \<Rightarrow>
                (case peerDecode P (jCreator pr) of
                   None \<Rightarrow> getLoop P recs (Suc n) (lg @ [CouldNotConvertCreator])
                 | Some newCreator \<Rightarrow>
                 (case ParseDuration P (jProvideTime pr) of
                    None \<Rightarrow> getLoop P recs (Suc n) (lg @ [ErrorParsingProvideTime])
                  | Some newProvideTime \<Rightarrow>
                  (case timeParse P (jPublicationTime pr) of
                     None \<Rightarrow> getLoop P recs (Suc n) (lg @ [ErrorParsingPublicationTime])
                   | Some newPublicationTime \<Rightarrow>
                       (Inr (NewTrackableCid newPid newCid newCreator
                               (multiaddresses P (addressesOf pr))
                               newPublicationTime newProvideTime (jUserAgent pr)),
                        Suc n, lg))))))))"
  by pat_completeness auto
termination
  by (relation "measure (\<lambda>(P, recs, n, lg). length recs - n)") auto

declare getLoop.simps [simp del]

definition GetNewCid ::
  "parsers \<Rightarrow> JsonFileCIDSource \<Rightarrow> (string + TrackableCid) \<times> JsonFileCIDSource \<times> diagnostic list" where
  "GetNewCid P src =
     (let (res, n, lg) = getLoop P (records src) (iterCalls src) []
      in (res, src\<lparr>iterCalls := n\<rparr>, lg))"

text \<open>The first field of a record that does not parse, by the line logged for it, in
  the order \<open>GetNewCid\<close> parses the fields.\<close>

definition firstBad :: "parsers \<Rightarrow> EncapsulatedJSONProviderRecord \<Rightarrow> diagnostic option" where
  "firstBad P pr =
     (if cidParse P (jCID pr) = None then Some CouldNotConvertCid
      else if peerDecode P (jID pr) = None then Some CouldNotConvertPid
      else if peerDecode P (jCreator pr) = None then Some CouldNotConvertCreator
      else if ParseDuration P (jProvideTime pr) = None then Some ErrorParsingProvideTime
      else if timeParse P (jPublicationTime pr) = None then Some ErrorParsingPublicationTime
      else None)"

definition trackableOf :: "parsers \<Rightarrow> EncapsulatedJSONProviderRecord \<Rightarrow> TrackableCid" where
  "trackableOf P pr =
     NewTrackableCid (the (peerDecode P (jID pr))) (the (cidParse P (jCID pr)))
       (the (peerDecode P (jCreator pr))) (multiaddresses P (addressesOf pr))
       (the (timeParse P (jPublicationTime pr))) (the (ParseDuration P (jProvideTime pr)))
       (jUserAgent pr)"

text \<open>The records a call of \<open>GetNewCid\<close> can reach from position \<open>n\<close>: those before
  the first record equal to the zero record; and whether one of the five parsed fields
  of a record does not parse.\<close>

definition reachable :: "ProviderRecords \<Rightarrow> nat \<Rightarrow> ProviderRecords" where
  "reachable recs n = takeWhile (\<lambda>pr. pr \<noteq> zeroRecord) (drop n recs)"

definition unparsed :: "parsers \<Rightarrow> EncapsulatedJSONProviderRecord \<Rightarrow> bool" where
  "unparsed P pr = (firstBad P pr \<noteq> None)"

section \<open>Concrete inputs\<close>

text \<open>Tracked CIDs with zero counters that are due from instant 0 on, and queues of one
  and of three of them; the study has one round.\<close>

definition cidAt :: "cid \<Rightarrow> CidInfo" where
  "cidAt k = NewCidInfo k 20 (60 * second) 0 ''standard'' ''self''"

definition exObjs :: "ref \<Rightarrow> CidInfo" where
  "exObjs r = (if r = 0 then cidAt ''a'' else if r = 1 then cidAt ''b'' else cidAt ''c'')"

definition oneQueue :: pinger where
  "oneQueue =
     \<lparr>objs = exObjs, arrays = (\<lambda>a. [])(0 := [0]), nextArr = 1,
      cidQ = \<lparr>cidMap = [''a'' \<mapsto> 0], cidArray = \<lparr>arr = 0, len = 1\<rparr>\<rparr>,
      rounds = 1, pingTaskC = []\<rparr>"

definition threeQueue :: pinger where
  "threeQueue =
     \<lparr>objs = exObjs, arrays = (\<lambda>a. [])(0 := [0, 1, 2]), nextArr = 1,
      cidQ = \<lparr>cidMap = [''a'' \<mapsto> 0, ''b'' \<mapsto> 1, ''c'' \<mapsto> 2], cidArray = \<lparr>arr = 0, len = 3\<rparr>\<rparr>,
      rounds = 1, pingTaskC = []\<rparr>"

definition steadyClock :: tick_env where
  "steadyClock = \<lparr>nowAt = (\<lambda>i. 10), ctxErrAt = (\<lambda>i. False)\<rparr>"

text \<open>The queue of three in a study of three rounds, the third CID being due at
  instant 100 only.\<close>

definition steadyQueue :: pinger where
  "steadyQueue =
     threeQueue\<lparr>objs := exObjs(2 := (cidAt ''c'')\<lparr>NextPing := 100\<rparr>), rounds := 3\<rparr>"

text \<open>The tags of the connection errors, errors being classified by their own text.\<close>

definition tags :: p2p where
  "tags = \<lparr>ParseConError = (\<lambda>e. e), DialErrorConnectionRefused = ''connection_refused'',
           DialErrorStreamReset = ''stream_reset'', NoConnError = ''none''\<rparr>"

text \<open>A holder that refuses two dials, each after 8 s, and accepts the third after
  1 s; it then reports the creator as a provider. A dial whose context is done before
  the holder answers ends then, with the context's error.\<close>

definition refusingHost :: host where
  "refusingHost =
     \<lparr>Connect = (\<lambda>ctx pid att t.
        (let d = (if att < 2 then 8 * second else second);
             answer = (if att < 2 then Some ''connection_refused'' else None)
         in case ctx of
              None \<Rightarrow> (answer, d)
            | Some deadline \<Rightarrow>
                if deadline < t + d
                then (Some ''context_deadline_exceeded'', max 0 (deadline - t))
                else (answer, d))),
      GetProvidersFromPeer = (\<lambda>ctx pid c. ([''self''], None, second)),
      ClosePeer = (\<lambda>pid. None)\<rparr>"

text \<open>A worker's round on a CID with one holder, whose next ping is set to the 160th
  second: the task is taken at the 100th second and the lookups take 1 s each.\<close>

definition quickDht :: dht where
  "quickDht =
     \<lparr>LookupForProviders = (\<lambda>ctx c. ([''self''], None, second)),
      GetClosestPeers = (\<lambda>ctx c. ((4, 2), [''holder''], None, second))\<rparr>"

definition watchedCid :: CidInfo where
  "watchedCid =
     (NewCidInfo ''a'' 20 (60 * second) 0 ''standard'' ''self'')
       \<lparr>PRHolders := [NewPeerInfo ''holder'' [] ''agent''], PingCounter := 1,
        NextPing := 160 * second\<rparr>"

definition watching :: pinger where
  "watching =
     \<lparr>objs = (\<lambda>r. watchedCid), arrays = (\<lambda>a. [])(0 := [0]), nextArr = 1,
      cidQ = \<lparr>cidMap = [''a'' \<mapsto> 0], cidArray = \<lparr>arr = 0, len = 1\<rparr>\<rparr>,
      rounds = 3, pingTaskC = []\<rparr>"

definition firstRound :: CidFetchResults where
  "firstRound =
     \<lparr>frCid = ''a'', frRound = 1, frK = 0, frPublicationTime = 0, StartTime = 100 * second,
      FinishTime = 118 * second, IsRetrievable = True, TotalHops = 4, HopsToClosest = 2,
      HopsTreeDepth = 0, MinHopsToClosest = 0, FindProvDuration = second,
      GetClosePeersDuration = second, ClosestPeers = [''holder''],
      PRPingResultsL = [NewPRPingResults ''a'' ''holder'' 1 (100 * second) (18 * second) True True ''none''],
      DoneC = 0\<rparr>"

text \<open>A publication of the CID \<open>a\<close>: the provide call sends one acknowledged and one
  failed ADD_PROVIDER notification; \<open>tracking\<close> is the shared state at the call.\<close>

definition ackedMsg :: MsgNotification where
  "ackedMsg = \<lparr>msgTyp = ADD_PROVIDER, msgKey = ''a'', RemotePeer = ''holder1'',
               QueryTime = second, QueryDuration = millisecond, Error = None\<rparr>"

definition failedMsg :: MsgNotification where
  "failedMsg = \<lparr>msgTyp = ADD_PROVIDER, msgKey = ''a'', RemotePeer = ''holder2'',
                QueryTime = second, QueryDuration = millisecond, Error = Some ''timeout''\<rparr>"

definition exPublisher :: CidPublisher where
  "exPublisher = \<lparr>pubK = 20, pubReqInterval = 60 * second, CidPingTime = 0,
                  dhtProvide = ''standard''\<rparr>"

definition exDhtHost :: dhtHost where
  "exDhtHost =
     \<lparr>Cast = (\<lambda>k. if k = [] then None else Some k), hostID = ''self'',
      GetMAddrsOfPeer = (\<lambda>p. [''/ip4/10.0.0.1/tcp/4001'']),
      GetUserAgentOfPeer = (\<lambda>p. ''agent''),
      ProvideCid = (\<lambda>c. ((second, None, None), [ackedMsg, failedMsg]))\<rparr>"

definition noCids :: tracker where
  "noCids = \<lparr>cidSet = Map.empty, firstCidFetchRes = Map.empty\<rparr>"

definition tracking :: tracker where
  "tracking = \<lparr>cidSet = [''a'' \<mapsto> cidAt ''a''],
               firstCidFetchRes = [''a'' \<mapsto> NewCidFetchResults ''a'' 0 0 20]\<rparr>"

text \<open>Parsers that reject the empty text and the text \<open>bad\<close>, records with every
  field set, sources and files made of them. The file \<open>encoded.json\<close> holds two
  documents, the second without the records' key; \<open>one.json\<close> and \<open>two.json\<close> hold one
  of them each. The file \<open>mistyped.json\<close> holds one document with two records, of which
  the second has a field of the wrong JSON type. The source \<open>emptyFirst\<close> has an
  all-empty record before a record with every field well formed.\<close>

definition exParsers :: parsers where
  "exParsers =
     \<lparr>cidParse = (\<lambda>s. if s = [] \<or> s = ''bad'' then None else Some s),
      peerDecode = (\<lambda>s. if s = [] \<or> s = ''bad'' then None else Some s),
      ParseDuration = (\<lambda>s. if s = ''12ms'' then Some (12 * millisecond) else None),
      timeParse = (\<lambda>s. if s = ''2022-01-01'' then Some 0 else None),
      NewMultiaddr = (\<lambda>s. if s = [] \<or> s = ''bad'' then None else Some s)\<rparr>"

definition recordOf :: "string \<Rightarrow> string list \<Rightarrow> EncapsulatedJSONProviderRecord" where
  "recordOf c as =
     \<lparr>jID = ''holder'', jCID = c, jCreator = ''self'', jProvideTime = ''12ms'',
      jPublicationTime = ''2022-01-01'', jUserAgent = ''agent'', jAddresses = Some as\<rparr>"

definition exSource :: JsonFileCIDSource where
  "exSource = \<lparr>filename = ''records.json'',
               records = [recordOf ''bad'' [], recordOf ''a'' [''bad'', ''/ip4/10.0.0.1/tcp/4001'']],
               iterCalls = 0\<rparr>"

definition addrSource :: JsonFileCIDSource where
  "addrSource = \<lparr>filename = ''addresses.json'',
                 records = [recordOf ''a'' [''bad'', ''/ip4/10.0.0.1/tcp/4001'']],
                 iterCalls = 0\<rparr>"

definition emptyFirst :: JsonFileCIDSource where
  "emptyFirst = \<lparr>filename = ''empty.json'',
                 records = [zeroRecord, recordOf ''a'' []],
                 iterCalls = 0\<rparr>"

definition exFiles :: fs where
  "exFiles =
     [''records.json'' \<mapsto> Content [Document (Some (map Fits (records exSource)))],
      ''mistyped.json'' \<mapsto> Content [Document (Some [Fits (recordOf ''a'' []), Mistyped])],
      ''encoded.json'' \<mapsto> Content [Document (Some [Fits (recordOf ''a'' [])]), Document None],
      ''one.json'' \<mapsto> Content [Document (Some [Fits (recordOf ''a'' [])])],
      ''two.json'' \<mapsto> Content [Document None]]"

section \<open>The queue: removal from a one-element queue\<close>

lemma Len_cidMap_upd [simp]:
  "Len (p\<lparr>cidQ := (cidQ p)\<lparr>cidMap := m\<rparr>\<rparr>) = Len p"
  by (simp add: Len_def)

text \<open>
  C10. When the queue's slice holds exactly one element, \<open>removeCid k\<close> leaves an empty
  slice whatever the key \<open>k\<close> is, and the map loses the entry of \<open>k\<close> only; hence for a
  key \<open>k\<close> other than the stored element's key, the element stays in \<open>cidMap\<close> and is gone
  from \<open>cidArray\<close>.
\<close>

theorem removeCid_one_element:
  "Len p = 1 \<Longrightarrow>
     queued (removeCid k p) = [] \<and>
     cidMap (cidQ (removeCid k p)) = (cidMap (cidQ p))(k := None) \<and>
     (\<forall>r. queued p = [r] \<and> keyOf p r \<noteq> k \<and> cidMap (cidQ p) (keyOf p r) = Some r \<longrightarrow>
          cidMap (cidQ (removeCid k p)) (keyOf p r) = Some r \<and> r \<notin> set (queued (removeCid k p)))"
  by (simp add: removeCid_def Let_def make0_def queued_def elems_def split: prod.splits)

theorem removeCid_one_element_witness:
  "Len oneQueue = 1 \<and> queued oneQueue = [0] \<and> keyOf oneQueue 0 \<noteq> ''b'' \<and>
   cidMap (cidQ oneQueue) (keyOf oneQueue 0) = Some 0 \<and>
   queued (removeCid ''b'' oneQueue) = [] \<and>
   cidMap (cidQ (removeCid ''b'' oneQueue)) (keyOf oneQueue 0) = Some 0"
proof -
  have l: "Len oneQueue = 1"
    by (simp add: Len_def oneQueue_def)
  have q: "queued oneQueue = [0]"
    by (simp add: queued_def elems_def oneQueue_def)
  have k: "keyOf oneQueue 0 \<noteq> ''b''"
    by (simp add: keyOf_def oneQueue_def exObjs_def cidAt_def NewCidInfo_def)
  have m: "cidMap (cidQ oneQueue) (keyOf oneQueue 0) = Some 0"
    by (simp add: keyOf_def oneQueue_def exObjs_def cidAt_def NewCidInfo_def)
  from removeCid_one_element [OF l, of "''b''"] q k m l show ?thesis
    by blast
qed

section \<open>The orchestrator's scan when an element is removed\<close>

text \<open>
  C6. The claim: on a tick, every queued CidInfo that is due is counted and sent to the
  task channel, it leaves the queue exactly when its counter has reached \<open>rounds\<close>, and
  the scan stops at the first one that is not due. On a queue of three due elements and
  a study of one round, whatever \<open>IncreasePingCounter\<close> does beyond counting: the scan
  removes the first element while it ranges over the backing array, which moves the
  others down, so the second element, due as it is, is never read: it is neither
  counted nor sent on this tick, while the first and the third are.
\<close>

theorem scan_skips_due_element:
  "countsPing inc (cidAt ''a'') \<Longrightarrow> countsPing inc (cidAt ''c'') \<Longrightarrow>
   countsPing inc (inc (cidAt ''c'')) \<Longrightarrow>
     dueAt 10 threeQueue = [0, 1, 2] \<and>
     fst (scanQueue inc steadyClock threeQueue) = Completed \<and>
     0 \<in> set (pingTaskC (snd (scanQueue inc steadyClock threeQueue))) \<and>
     2 \<in> set (pingTaskC (snd (scanQueue inc steadyClock threeQueue))) \<and>
     1 \<notin> set (pingTaskC (snd (scanQueue inc steadyClock threeQueue))) \<and>
     objs (snd (scanQueue inc steadyClock threeQueue)) 1 = cidAt ''b''"
proof -
  assume a: "countsPing inc (cidAt ''a'')" and c: "countsPing inc (cidAt ''c'')"
    and cc: "countsPing inc (inc (cidAt ''c''))"
  have ka: "CID (inc (cidAt ''a'')) = ''a''" "PingCounter (inc (cidAt ''a'')) = 1"
    using a by (simp_all add: countsPing_def GetPingCounter_def cidAt_def NewCidInfo_def)
  have kc: "CID (inc (cidAt ''c'')) = ''c''" "PingCounter (inc (cidAt ''c'')) = 1"
    using c by (simp_all add: countsPing_def GetPingCounter_def cidAt_def NewCidInfo_def)
  have kcc: "CID (inc (inc (cidAt ''c''))) = ''c''" "PingCounter (inc (inc (cidAt ''c''))) = 2"
    using cc kc by (simp_all add: countsPing_def GetPingCounter_def)
  have k0: "CID (cidAt ''a'') = ''a''" "CID (cidAt ''b'') = ''b''" "CID (cidAt ''c'') = ''c''"
    "NextPing (cidAt ''a'') = 0" "NextPing (cidAt ''b'') = 0" "NextPing (cidAt ''c'') = 0"
    by (simp_all add: cidAt_def NewCidInfo_def)
  have d: "dueAt 10 threeQueue = [0, 1, 2]"
    by (simp add: dueAt_def queued_def elems_def threeQueue_def exObjs_def k0)
  show ?thesis
  proof (cases "NextPing (inc (cidAt ''c'')) \<le> 10")
    case True
    then show ?thesis
      unfolding d
      by (simp add: scanQueue_def threeQueue_def steadyClock_def exObjs_def upt_conv_Cons Let_def
            keyOf_def GetPingCounter_def removeCid_def Len_def deleteAt_def make0_def elems_def
            ka kc kcc k0)
  next
    case False
    then show ?thesis
      unfolding d
      by (simp add: scanQueue_def threeQueue_def steadyClock_def exObjs_def upt_conv_Cons Let_def
            keyOf_def GetPingCounter_def removeCid_def Len_def deleteAt_def make0_def elems_def
            ka kc kcc k0)
  qed
qed

text \<open>
  With \<open>IncreasePingCounter\<close> as modelled, the third element is read a second time from
  the slot the removal left behind: it is counted and sent twice, and its second
  removal finds a one-element queue and empties it. The second element, due and never
  sent, is left in the map and is no longer queued.
\<close>

theorem scan_skips_due_element_witness:
  "countsPing IncreasePingCounter (cidAt ''a'') \<and>
   countsPing IncreasePingCounter (cidAt ''c'') \<and>
   countsPing IncreasePingCounter (IncreasePingCounter (cidAt ''c'')) \<and>
   dueAt 10 threeQueue = [0, 1, 2] \<and>
   pingTaskC (snd (scanQueue IncreasePingCounter steadyClock threeQueue)) = [0, 2, 2] \<and>
   queued (snd (scanQueue IncreasePingCounter steadyClock threeQueue)) = [] \<and>
   cidMap (cidQ (snd (scanQueue IncreasePingCounter steadyClock threeQueue))) ''b'' = Some 1 \<and>
   PingCounter (objs (snd (scanQueue IncreasePingCounter steadyClock threeQueue)) 1) = 0"
proof -
  have c: "countsPing IncreasePingCounter (cidAt ''a'')"
          "countsPing IncreasePingCounter (cidAt ''c'')"
          "countsPing IncreasePingCounter (IncreasePingCounter (cidAt ''c''))"
    by (simp_all add: countsPing_def IncreasePingCounter_def GetPingCounter_def)
  from scan_skips_due_element [OF c]
  have d: "dueAt 10 threeQueue = [0, 1, 2]"
    and o: "objs (snd (scanQueue IncreasePingCounter steadyClock threeQueue)) 1 = cidAt ''b''"
    by blast+
  have p: "PingCounter (objs (snd (scanQueue IncreasePingCounter steadyClock threeQueue)) 1) = 0"
    unfolding o by (simp add: cidAt_def NewCidInfo_def)
  have e: "pingTaskC (snd (scanQueue IncreasePingCounter steadyClock threeQueue)) = [0, 2, 2] \<and>
           queued (snd (scanQueue IncreasePingCounter steadyClock threeQueue)) = [] \<and>
           cidMap (cidQ (snd (scanQueue IncreasePingCounter steadyClock threeQueue))) ''b'' = Some 1"
    by (simp add: queued_def elems_def scanQueue_def threeQueue_def steadyClock_def
          exObjs_def cidAt_def NewCidInfo_def upt_conv_Cons Let_def keyOf_def
          IncreasePingCounter_def GetPingCounter_def removeCid_def Len_def deleteAt_def make0_def)
  from c d p e show ?thesis
    by blast
qed

lemma rangeLoop_no_removal:
  assumes "\<forall>i. nowAt env i = t" "\<forall>i. \<not> ctxErrAt env i"
  shows "\<forall>i \<in> set idxs. i < length (arrays p a) \<Longrightarrow>
         distinct (map (nth (arrays p a)) idxs) \<Longrightarrow>
         \<forall>i \<in> set idxs. countsPing inc (objs p (arrays p a ! i))
            \<and> PingCounter (objs p (arrays p a ! i)) + 1 < rounds p \<Longrightarrow>
         rangeLoop inc env a idxs p =
           (Completed,
            countDue inc p (takeWhile (\<lambda>r. NextPing (objs p r) \<le> t) (map (nth (arrays p a)) idxs)))"
proof (induction idxs arbitrary: p)
  case Nil
  then show ?case by (simp add: countDue_def)
next
  case (Cons idx rest)
  let ?c = "arrays p a ! idx"
  let ?rs = "map (nth (arrays p a)) rest"
  show ?case
  proof (cases "NextPing (objs p ?c) \<le> t")
    case False
    then show ?thesis
      using Cons.prems assms by (simp add: countDue_def Let_def)
  next
    case True
    let ?p3 = "p\<lparr>objs := (objs p)(?c := inc (objs p ?c)),
                  pingTaskC := pingTaskC p @ [?c]\<rparr>"
    have notin: "?c \<notin> set ?rs"
      using Cons.prems(2) by simp
    have same: "\<And>r. r \<in> set ?rs \<Longrightarrow> objs ?p3 r = objs p r"
    proof -
      fix r assume "r \<in> set ?rs"
      with notin have "r \<noteq> ?c" by blast
      then show "objs ?p3 r = objs p r" by simp
    qed
    have step: "rangeLoop inc env a (idx # rest) p = rangeLoop inc env a rest ?p3"
      using Cons.prems True assms
      by (simp add: Let_def GetPingCounter_def countsPing_def)
    have ih: "rangeLoop inc env a rest ?p3 =
                (Completed, countDue inc ?p3 (takeWhile (\<lambda>r. NextPing (objs ?p3 r) \<le> t) ?rs))"
    proof -
      have p1: "\<forall>i \<in> set rest. i < length (arrays ?p3 a)"
        using Cons.prems(1) by simp
      have p2: "distinct (map (nth (arrays ?p3 a)) rest)"
        using Cons.prems(2) by simp
      have p3: "\<forall>i \<in> set rest. countsPing inc (objs ?p3 (arrays ?p3 a ! i))
                  \<and> PingCounter (objs ?p3 (arrays ?p3 a ! i)) + 1 < rounds ?p3"
      proof
        fix i assume i: "i \<in> set rest"
        then have "arrays p a ! i \<in> set ?rs" by simp
        then have "objs ?p3 (arrays p a ! i) = objs p (arrays p a ! i)" by (rule same)
        with Cons.prems(3) i show "countsPing inc (objs ?p3 (arrays ?p3 a ! i))
            \<and> PingCounter (objs ?p3 (arrays ?p3 a ! i)) + 1 < rounds ?p3"
          by simp
      qed
      from Cons.IH [OF p1 p2 p3] show ?thesis by simp
    qed
    have tw: "takeWhile (\<lambda>r. NextPing (objs ?p3 r) \<le> t) ?rs
                = takeWhile (\<lambda>r. NextPing (objs p r) \<le> t) ?rs"
      by (rule takeWhile_cong) (use same in auto)
    let ?tw = "takeWhile (\<lambda>r. NextPing (objs p r) \<le> t) ?rs"
    have cn: "?c \<notin> set ?tw"
      using notin by (auto dest: set_takeWhileD)
    have f: "(\<lambda>r. if r \<in> set ?tw then inc (objs ?p3 r) else objs ?p3 r)
               = (\<lambda>r. if r \<in> set (?c # ?tw) then inc (objs p r) else objs p r)"
    proof
      fix r
      show "(if r \<in> set ?tw then inc (objs ?p3 r) else objs ?p3 r)
              = (if r \<in> set (?c # ?tw) then inc (objs p r) else objs p r)"
        using cn by (cases "r = ?c") auto
    qed
    have "countDue inc ?p3 ?tw = countDue inc p (?c # ?tw)"
      unfolding countDue_def f by simp
    then show ?thesis
      using step ih tw True by simp
  qed
qed


lemma map_nth_upt_take: "n \<le> length xs \<Longrightarrow> map (nth xs) [0..<n] = take n xs"
  by (rule nth_equalityI) simp_all

lemma takeWhile_sorted_filter:
  "sorted (map f xs) \<Longrightarrow> takeWhile (\<lambda>x. f x \<le> (t::int)) xs = filter (\<lambda>x. f x \<le> t) xs"
proof (induction xs)
  case Nil
  then show ?case by simp
next
  case (Cons x xs)
  show ?case
  proof (cases "f x \<le> t")
    case True
    with Cons show ?thesis by simp
  next
    case False
    with Cons.prems have "\<forall>y \<in> set xs. \<not> f y \<le> t"
      by fastforce
    then have "filter (\<lambda>x. f x \<le> t) xs = []"
      by (simp add: filter_empty_conv)
    with False show ?thesis by simp
  qed
qed

text \<open>
  The scan on a tick that removes nothing. With one clock reading for the whole
  tick and a live context, over a queue without duplicates that is sorted by \<open>NextPing\<close>
  and in which no element is one ping short of \<open>rounds\<close>: the scan counts and sends
  exactly the elements that are due, in the queue's order, which are the elements
  before the first one that is not due, and it leaves the queue as it was.
\<close>

theorem scan_without_removal:
  "(\<forall>i. nowAt env i = t) \<Longrightarrow> (\<forall>i. \<not> ctxErrAt env i) \<Longrightarrow>
   len (cidArray (cidQ p)) \<le> length (arrays p (arr (cidArray (cidQ p)))) \<Longrightarrow>
   distinct (queued p) \<Longrightarrow>
   sorted (map (\<lambda>r. NextPing (objs p r)) (queued p)) \<Longrightarrow>
   (\<forall>r \<in> set (queued p). countsPing inc (objs p r) \<and> PingCounter (objs p r) + 1 < rounds p) \<Longrightarrow>
     scanQueue inc env p = (Completed, countDue inc p (dueAt t p)) \<and>
     dueAt t p = takeWhile (\<lambda>r. NextPing (objs p r) \<le> t) (queued p) \<and>
     queued (countDue inc p (dueAt t p)) = queued p"
proof -
  let ?s = "cidArray (cidQ p)"
  let ?A = "arrays p (arr ?s)"
  assume env: "\<forall>i. nowAt env i = t" "\<forall>i. \<not> ctxErrAt env i"
    and wf: "len ?s \<le> length ?A"
    and d: "distinct (queued p)"
    and so: "sorted (map (\<lambda>r. NextPing (objs p r)) (queued p))"
    and nr: "\<forall>r \<in> set (queued p). countsPing inc (objs p r) \<and> PingCounter (objs p r) + 1 < rounds p"
  have q: "map (nth ?A) [0..<len ?s] = queued p"
    using wf by (simp add: queued_def elems_def map_nth_upt_take)
  have i1: "\<forall>i \<in> set [0..<len ?s]. i < length ?A"
    using wf by simp
  have i2: "distinct (map (nth ?A) [0..<len ?s])"
    using d q by simp
  have i3: "\<forall>i \<in> set [0..<len ?s]. countsPing inc (objs p (?A ! i))
              \<and> PingCounter (objs p (?A ! i)) + 1 < rounds p"
  proof
    fix i assume "i \<in> set [0..<len ?s]"
    then have "?A ! i \<in> set (map (nth ?A) [0..<len ?s])" by simp
    with nr q show "countsPing inc (objs p (?A ! i)) \<and> PingCounter (objs p (?A ! i)) + 1 < rounds p"
      by simp
  qed
  have tw: "dueAt t p = takeWhile (\<lambda>r. NextPing (objs p r) \<le> t) (queued p)"
    unfolding dueAt_def using takeWhile_sorted_filter [OF so, of t] by simp
  have "scanQueue inc env p =
          (Completed, countDue inc p (takeWhile (\<lambda>r. NextPing (objs p r) \<le> t) (queued p)))"
    using rangeLoop_no_removal [OF env i1 i2 i3] q by (simp add: scanQueue_def Let_def)
  with tw show ?thesis
    by (simp add: countDue_def queued_def elems_def)
qed

lemma eval_steady: "queued steadyQueue = [0, 1, 2]"
  by (simp add: queued_def elems_def steadyQueue_def threeQueue_def)

theorem scan_without_removal_witness:
  "(\<forall>i. nowAt steadyClock i = 10) \<and> (\<forall>i. \<not> ctxErrAt steadyClock i) \<and>
   len (cidArray (cidQ steadyQueue)) \<le> length (arrays steadyQueue (arr (cidArray (cidQ steadyQueue)))) \<and>
   distinct (queued steadyQueue) \<and>
   sorted (map (\<lambda>r. NextPing (objs steadyQueue r)) (queued steadyQueue)) \<and>
   countsPing IncreasePingCounter (objs steadyQueue 0) \<and>
   countsPing IncreasePingCounter (objs steadyQueue 1) \<and>
   countsPing IncreasePingCounter (objs steadyQueue 2) \<and>
   PingCounter (objs steadyQueue 0) + 1 < rounds steadyQueue \<and>
   PingCounter (objs steadyQueue 1) + 1 < rounds steadyQueue \<and>
   PingCounter (objs steadyQueue 2) + 1 < rounds steadyQueue \<and>
   dueAt 10 steadyQueue = [0, 1] \<and>
   pingTaskC (snd (scanQueue IncreasePingCounter steadyClock steadyQueue)) = [0, 1] \<and>
   queued (snd (scanQueue IncreasePingCounter steadyClock steadyQueue)) = [0, 1, 2]"
proof -
  have e: "\<forall>i. nowAt steadyClock i = 10" "\<forall>i. \<not> ctxErrAt steadyClock i"
    by (simp_all add: steadyClock_def)
  have w: "len (cidArray (cidQ steadyQueue))
             \<le> length (arrays steadyQueue (arr (cidArray (cidQ steadyQueue))))"
    by (simp add: steadyQueue_def threeQueue_def)
  have d: "distinct (queued steadyQueue)"
    by (simp add: eval_steady)
  have s: "sorted (map (\<lambda>r. NextPing (objs steadyQueue r)) (queued steadyQueue))"
    unfolding eval_steady
    by (simp add: steadyQueue_def threeQueue_def exObjs_def cidAt_def NewCidInfo_def)
  have c: "PingCounter (objs steadyQueue 0) + 1 < rounds steadyQueue"
          "PingCounter (objs steadyQueue 1) + 1 < rounds steadyQueue"
          "PingCounter (objs steadyQueue 2) + 1 < rounds steadyQueue"
    by (simp_all add: steadyQueue_def threeQueue_def exObjs_def cidAt_def NewCidInfo_def)
  have cp: "countsPing IncreasePingCounter (objs steadyQueue 0)"
           "countsPing IncreasePingCounter (objs steadyQueue 1)"
           "countsPing IncreasePingCounter (objs steadyQueue 2)"
    by (simp_all add: countsPing_def IncreasePingCounter_def GetPingCounter_def)
  have n: "\<forall>r \<in> set (queued steadyQueue). countsPing IncreasePingCounter (objs steadyQueue r)
             \<and> PingCounter (objs steadyQueue r) + 1 < rounds steadyQueue"
    using c cp by (simp add: eval_steady)
  have du: "dueAt 10 steadyQueue = [0, 1]"
    unfolding dueAt_def eval_steady
    by (simp add: steadyQueue_def threeQueue_def exObjs_def cidAt_def NewCidInfo_def)
  from scan_without_removal [OF e w d s n]
  have sc: "scanQueue IncreasePingCounter steadyClock steadyQueue = (Completed, countDue IncreasePingCounter steadyQueue [0, 1])"
    and qq: "queued (countDue IncreasePingCounter steadyQueue [0, 1]) = [0, 1, 2]"
    unfolding du eval_steady by blast+
  have pt: "pingTaskC (countDue IncreasePingCounter steadyQueue [0, 1]) = [0, 1]"
    by (simp add: countDue_def steadyQueue_def threeQueue_def)
  have "pingTaskC (snd (scanQueue IncreasePingCounter steadyClock steadyQueue)) = [0, 1]"
    and "queued (snd (scanQueue IncreasePingCounter steadyClock steadyQueue)) = [0, 1, 2]"
    unfolding sc using pt qq by simp_all
  with e w d s c cp du show ?thesis
    by blast
qed

section \<open>The dial attempts of a probe\<close>

lemma dialLoop_calls:
  "length (fst (dialLoop P h r pc c pid atts st)) \<le> length atts \<and>
   (atts \<noteq> [] \<longrightarrow> fst (dialLoop P h r pc c pid atts st) \<noteq> []) \<and>
   (\<forall>i < length (fst (dialLoop P h r pc c pid atts st)).
      (Suc i < length (fst (dialLoop P h r pc c pid atts st)))
        = (Suc i < length atts \<and> retryable P (fst (dialLoop P h r pc c pid atts st) ! i)))"
proof (induction atts arbitrary: st)
  case Nil
  then show ?case by simp
next
  case (Cons att rest)
  obtain err d where cn: "Connect h pc pid att (clock st) = (err, d)"
    by (cases "Connect h pc pid att (clock st)")
  show ?case
  proof (cases err)
    case None
    then show ?thesis using cn
      by (simp add: retryable_def Let_def split: prod.splits)
  next
    case (Some e)
    let ?st2 = "st\<lparr>clock := clock st + d, connError := ParseConError P e\<rparr>"
    show ?thesis
    proof (cases "ParseConError P e = DialErrorConnectionRefused P
                  \<or> ParseConError P e = DialErrorStreamReset P")
      case False
      then show ?thesis using cn Some
        by (simp add: retryable_def Let_def)
    next
      case True
      obtain calls st3 where rec: "dialLoop P h r pc c pid rest ?st2 = (calls, st3)"
        by (cases "dialLoop P h r pc c pid rest ?st2")
      have eq: "fst (dialLoop P h r pc c pid (att # rest) st)
                  = \<lparr>dialCtx = pc, dialStart = clock st, dialErr = Some e\<rparr> # calls"
        using cn Some True rec by (auto simp: Let_def)
      have ih: "length calls \<le> length rest \<and> (rest \<noteq> [] \<longrightarrow> calls \<noteq> []) \<and>
                (\<forall>i < length calls. (Suc i < length calls)
                    = (Suc i < length rest \<and> retryable P (calls ! i)))"
        using Cons.IH [of ?st2] rec by simp
      have r0: "retryable P \<lparr>dialCtx = pc, dialStart = clock st, dialErr = Some e\<rparr>"
        using True by (simp add: retryable_def)
      show ?thesis
        unfolding eq using ih r0
        by (auto simp: nth_Cons' less_Suc_eq_0_disj)
    qed
  qed
qed

text \<open>
  C5. A probe makes at least one and at most \<open>maxDialAttempts\<close> (3) dial attempts, and
  after an attempt another one is made exactly when fewer than three were made and the
  attempt failed with an error classified as connection refused or as stream reset: any
  other error ends the loop, and so does a successful dial.
\<close>

theorem dial_attempts:
  "1 \<le> length (fst (pingDials P h rootCtx now c pid)) \<and>
   length (fst (pingDials P h rootCtx now c pid)) \<le> maxDialAttempts \<and>
   (\<forall>i < length (fst (pingDials P h rootCtx now c pid)).
      (Suc i < length (fst (pingDials P h rootCtx now c pid)))
        = (Suc i < maxDialAttempts \<and> retryable P (fst (pingDials P h rootCtx now c pid) ! i)))"
proof -
  let ?st = "\<lparr>active = False, hasRecords = False, connError = [], clock = now\<rparr>"
  let ?pc = "WithTimeout rootCtx DialTimeout now"
  have e: "fst (pingDials P h rootCtx now c pid)
            = fst (dialLoop P h rootCtx ?pc c pid [0..<maxDialAttempts] ?st)"
    by (simp add: pingDials_def)
  have n: "length [0..<maxDialAttempts] = maxDialAttempts" "[0..<maxDialAttempts] \<noteq> []"
    by (simp_all add: maxDialAttempts_def)
  from dialLoop_calls [of P h rootCtx ?pc c pid "[0..<maxDialAttempts]" ?st] n
  show ?thesis
    unfolding e by (auto simp: Suc_le_eq)
qed

lemma eval_refusing:
  "fst (pingDials tags refusingHost None 0 (cidAt ''a'') ''holder'') =
     [\<lparr>dialCtx = Some (20 * second), dialStart = 0, dialErr = Some ''connection_refused''\<rparr>,
      \<lparr>dialCtx = Some (20 * second), dialStart = 8 * second, dialErr = Some ''connection_refused''\<rparr>,
      \<lparr>dialCtx = Some (20 * second), dialStart = 16 * second, dialErr = None\<rparr>]"
  by (simp add: pingDials_def tags_def refusingHost_def cidAt_def NewCidInfo_def
        WithTimeout_def DialTimeout_def maxDialAttempts_def upt_conv_Cons second_def Let_def)

theorem dial_attempts_witness:
  "length (fst (pingDials tags refusingHost None 0 (cidAt ''a'') ''holder'')) = 3 \<and>
   retryable tags (fst (pingDials tags refusingHost None 0 (cidAt ''a'') ''holder'') ! 0) \<and>
   retryable tags (fst (pingDials tags refusingHost None 0 (cidAt ''a'') ''holder'') ! 1) \<and>
   \<not> retryable tags (fst (pingDials tags refusingHost None 0 (cidAt ''a'') ''holder'') ! 2)"
proof -
  let ?calls = "fst (pingDials tags refusingHost None 0 (cidAt ''a'') ''holder'')"
  have r0: "retryable tags (?calls ! 0)"
    unfolding eval_refusing by (simp add: retryable_def tags_def)
  have r1: "retryable tags (?calls ! 1)"
    unfolding eval_refusing by (simp add: retryable_def tags_def)
  have n2: "\<not> retryable tags (?calls ! 2)"
    unfolding eval_refusing by (simp add: retryable_def tags_def)
  have m: "maxDialAttempts = 3"
    by (simp add: maxDialAttempts_def)
  have t: "1 \<le> length ?calls \<and> length ?calls \<le> maxDialAttempts \<and>
           (\<forall>i < length ?calls.
              (Suc i < length ?calls) = (Suc i < maxDialAttempts \<and> retryable tags (?calls ! i)))"
    by (rule dial_attempts)
  have a: "\<And>i. i < length ?calls \<Longrightarrow>
              (Suc i < length ?calls) = (Suc i < maxDialAttempts \<and> retryable tags (?calls ! i))"
    using t by blast
  have "1 \<le> length ?calls"
    using t by blast
  then have l0: "0 < length ?calls"
    by (simp add: Suc_le_eq)
  have l1: "Suc 0 < length ?calls"
    using a [OF l0] r0 m by simp
  have l2: "Suc (Suc 0) < length ?calls"
    using a [OF l1] r1 m by simp
  have "length ?calls \<le> 3"
    using t m by simp
  then have "length ?calls = 3"
    using l2 by simp
  then show ?thesis
    using r0 r1 n2 by simp
qed

lemma dialLoop_ctx:
  "dialLoop P h r pc c pid atts st = (calls, st') \<Longrightarrow> d \<in> set calls \<Longrightarrow> dialCtx d = pc"
proof (induction atts arbitrary: st calls st')
  case Nil
  then show ?case by simp
next
  case (Cons att rest)
  then show ?case
    by (fastforce simp: Let_def split: prod.splits option.splits if_splits)
qed

text \<open>
  C4. The claim: every dial attempt has a deadline of its own, \<open>DialTimeout\<close> after its
  start, whatever happens to the root context and however long the earlier attempts
  took. The code makes one context before the loop, from the root context. As amended:
  all dial attempts of a probe run under that one context, which is done
  \<open>DialTimeout\<close> after the probe's start or when the root context is done, whichever
  comes first; the time an attempt has is what is left until then.
\<close>

theorem one_deadline_for_all_dials:
  "d \<in> set (fst (pingDials P h rootCtx now c pid)) \<Longrightarrow>
     dialCtx d = WithTimeout rootCtx DialTimeout now \<and>
     budget d = Some ((case rootCtx of None \<Rightarrow> now + DialTimeout
                       | Some t \<Rightarrow> min t (now + DialTimeout)) - dialStart d)"
proof -
  assume d: "d \<in> set (fst (pingDials P h rootCtx now c pid))"
  obtain calls st where e: "pingDials P h rootCtx now c pid = (calls, st)"
    by (cases "pingDials P h rootCtx now c pid")
  have "dialCtx d = WithTimeout rootCtx DialTimeout now"
    using d e dialLoop_ctx [of P h rootCtx "WithTimeout rootCtx DialTimeout now" c pid
                               "[0..<maxDialAttempts]" _ calls st d]
    by (simp add: pingDials_def)
  then show ?thesis
    by (simp add: budget_def WithTimeout_def split: option.splits)
qed

theorem one_deadline_witness:
  "fst (pingDials tags refusingHost None 0 (cidAt ''a'') ''holder'') ! 1
      \<in> set (fst (pingDials tags refusingHost None 0 (cidAt ''a'') ''holder'')) \<and>
   budget (fst (pingDials tags refusingHost None 0 (cidAt ''a'') ''holder'') ! 1)
      = Some (12 * second)"
proof -
  have m: "fst (pingDials tags refusingHost None 0 (cidAt ''a'') ''holder'') ! 1
      \<in> set (fst (pingDials tags refusingHost None 0 (cidAt ''a'') ''holder''))"
    by (simp add: eval_refusing)
  from one_deadline_for_all_dials [OF m] m show ?thesis
    by (simp add: eval_refusing DialTimeout_def second_def budget_def WithTimeout_def)
qed

text \<open>
  The claim of C4 fails on the holder that refuses twice: with a root context that is
  never cancelled, the second attempt starts 8 s into the probe and has 12 s, not 20 s;
  with a root context cancelled 1 s into the probe, the first attempt has 1 s.
\<close>

theorem dial_budget_counterexample:
  "budget (fst (pingDials tags refusingHost None 0 (cidAt ''a'') ''holder'') ! 1) \<noteq> Some DialTimeout \<and>
   budget (fst (pingDials tags refusingHost (Some second) 0 (cidAt ''a'') ''holder'') ! 0) = Some second"
  by (simp add: budget_def pingDials_def tags_def refusingHost_def cidAt_def NewCidInfo_def
        WithTimeout_def DialTimeout_def maxDialAttempts_def upt_conv_Cons second_def Let_def)

section \<open>The worker's round and the next ping\<close>

lemma fold_max_ge: "(a::int) \<le> fold max xs a"
proof (induction xs arbitrary: a)
  case Nil
  then show ?case by simp
next
  case (Cons x xs)
  have "a \<le> max x a" by simp
  also have "\<dots> \<le> fold max xs (max x a)" by (rule Cons.IH)
  finally show ?case by simp
qed

lemma fold_AddPRPingResults [simp]:
  "StartTime (fold AddPRPingResults rs f) = StartTime f"
  "frRound (fold AddPRPingResults rs f) = frRound f"
  by (induction rs arbitrary: f) (simp_all add: AddPRPingResults_def)

lemma fold_AddClosestPeer [simp]:
  "StartTime (fold AddClosestPeer rs f) = StartTime f"
  "frRound (fold AddClosestPeer rs f) = frRound f"
  by (induction rs arbitrary: f) (simp_all add: AddClosestPeer_def)

lemma fold_max_nonneg: "0 \<le> a \<Longrightarrow> (0::int) \<le> fold max xs a"
  using fold_max_ge [of a xs] by simp

lemma roundResults_times:
  "frRound (roundResults P h D rootCtx now c) = PingCounter c"
  "StartTime (roundResults P h D rootCtx now c) = now"
  "now \<le> FinishTime (roundResults P h D rootCtx now c)"
  by (simp_all add: roundResults_def Let_def NewCidFetchResultsAt_def GetPingCounter_def
        fold_max_nonneg split: prod.splits)

text \<open>
  C3. The claim: after the worker has set the round's \<open>FinishTime\<close> and submitted the
  results, the CID's \<open>NextPing\<close> is the commit instant plus \<open>ReqInterval\<close>. The worker
  writes no field of the CidInfo. As amended: a worker's round that returns leaves the
  CidInfo objects as they were, so \<open>NextPing\<close> after the round is what it was when the
  task was taken; the round appends one CidFetchResults to the sink's channel, numbered
  by the ping counter, started at the instant the task was taken and finished at or
  after it.
\<close>

theorem worker_round_keeps_NextPing:
  "pingRound P h D rootCtx now r (p, db) = Returns (p', db') \<Longrightarrow>
     p' = p \<and> NextPing (objs p' r) = NextPing (objs p r) \<and>
     (\<exists>fr. fetchResultC db' = fetchResultC db @ [fr] \<and> frRound fr = PingCounter (objs p r)
           \<and> StartTime fr = now \<and> now \<le> FinishTime fr)"
proof -
  let ?fr = "roundResults P h D rootCtx now (objs p r)"
  assume "pingRound P h D rootCtx now r (p, db) = Returns (p', db')"
  then have "p' = p" "fetchResultC db' = fetchResultC db @ [?fr]"
    by (auto simp: pingRound_def andThen_def AddFetchResult_def split: if_splits)
  then show ?thesis
    by (simp add: roundResults_times)
qed

lemma eval_round:
  "pingRound tags refusingHost quickDht None (100 * second) 0 (watching, NewDBClient)
     = Returns (watching, NewDBClient\<lparr>fetchResultC := [firstRound]\<rparr>)"
  by (simp add: pingRound_def roundResults_def tags_def refusingHost_def quickDht_def watching_def watchedCid_def
        NewDBClient_def firstRound_def NewCidInfo_def NewPeerInfo_def GetPingCounter_def
        NewCidFetchResultsAt_def AddClosestPeer_def AddPRPingResults_def PingPRHolder_def
        pingDials_def WithTimeout_def DialTimeout_def maxDialAttempts_def upt_conv_Cons
        NewPRPingResults_def andThen_def AddFetchResult_def second_def Let_def)

theorem worker_round_witness:
  "pingRound tags refusingHost quickDht None (100 * second) 0 (watching, NewDBClient)
     = Returns (watching, NewDBClient\<lparr>fetchResultC := [firstRound]\<rparr>) \<and>
   NextPing (objs watching 0) = 160 * second"
  using worker_round_keeps_NextPing [OF eval_round] eval_round
  by (simp add: watching_def watchedCid_def)

text \<open>
  The claim of C3 fails on the round of the concrete inputs: it finishes at the 118th
  second, the interval is 60 s, and \<open>NextPing\<close> is still the 160th second, 18 s away
  from the 178th, with a tick of half a second.
\<close>

theorem NextPing_counterexample:
  "returned (pingRound tags refusingHost quickDht None (100 * second) 0 (watching, NewDBClient))
     = Some (watching, NewDBClient\<lparr>fetchResultC := [firstRound]\<rparr>) \<and>
   FinishTime firstRound = 118 * second \<and>
   ReqInterval (objs watching 0) = 60 * second \<and>
   NextPing (objs watching 0) = 160 * second \<and>
   \<not> \<bar>NextPing (objs watching 0) - (FinishTime firstRound + ReqInterval (objs watching 0))\<bar>
       \<le> minIterTime"
  unfolding eval_round
  by (simp add: returned_def firstRound_def watching_def watchedCid_def NewCidInfo_def
        minIterTime_def second_def millisecond_def)

section \<open>The listener and the holders of a CID\<close>

text \<open>
  C1. The claim: the listener adds the remote peer's PeerInfo to \<open>PRHolders\<close> only when
  the ADD_PROVIDER notification carries no error. The listener calls \<open>AddPRHolder\<close>
  outside the branches on the error. As amended: for every ADD_PROVIDER notification
  whose CID has its CidInfo in the CidSet and its round-0 slot in the shared map, the
  PeerInfo of the remote peer is added to \<open>PRHolders\<close> whether or not the notification
  carries an error; the error decides the \<open>Active\<close> flag and the \<open>ConnError\<close> tag of the
  round-0 ping result recorded for that peer.
\<close>

theorem holder_added_with_or_without_error:
  "msgTyp n = ADD_PROVIDER \<Longrightarrow> getCid (cidSet s) (castedCidOf H n) = Some c \<Longrightarrow>
   firstCidFetchRes s (castedCidOf H n) = Some f \<Longrightarrow>
     holdersOf (addProviderMsg P H n s) (castedCidOf H n)
       = Some (PRHolders (AddPRHolder
                 (NewPeerInfo (RemotePeer n) (GetMAddrsOfPeer H (RemotePeer n))
                    (GetUserAgentOfPeer H (RemotePeer n))) c)) \<and>
     pingsOf (addProviderMsg P H n s) (castedCidOf H n)
       = Some (PRPingResultsL f @
               [NewPRPingResults10 (castedCidOf H n) (RemotePeer n) 0 (GetPublicationTime f)
                  (QueryTime n) (QueryDuration n) (Error n = None) False False
                  (case Error n of Some e \<Rightarrow> ParseConError P e | None \<Rightarrow> NoConnError P)])"
  by (cases "Error n")
     (simp_all add: addProviderMsg_def holdersOf_def pingsOf_def Let_def AddPRPingResults_def)

lemma eval_failed:
  "holdersOf (addProviderMsg tags exDhtHost failedMsg tracking) ''a''
     = Some [NewPeerInfo ''holder2'' [''/ip4/10.0.0.1/tcp/4001''] ''agent'']"
  by (simp add: addProviderMsg_def holdersOf_def Let_def AddPRHolder_def AddPRPingResults_def
        tags_def exDhtHost_def failedMsg_def tracking_def castedCidOf_def getCid_def cidAt_def
        NewCidInfo_def NewCidFetchResults_def IsDone_def)

theorem holder_added_witness:
  "msgTyp failedMsg = ADD_PROVIDER \<and>
   getCid (cidSet tracking) (castedCidOf exDhtHost failedMsg) = Some (cidAt ''a'') \<and>
   firstCidFetchRes tracking (castedCidOf exDhtHost failedMsg) = Some (NewCidFetchResults ''a'' 0 0 20) \<and>
   holdersOf (addProviderMsg tags exDhtHost failedMsg tracking) (castedCidOf exDhtHost failedMsg)
     = Some [NewPeerInfo ''holder2'' [''/ip4/10.0.0.1/tcp/4001''] ''agent'']"
proof -
  have k: "castedCidOf exDhtHost failedMsg = ''a''"
    by (simp add: castedCidOf_def exDhtHost_def failedMsg_def)
  have t: "msgTyp failedMsg = ADD_PROVIDER"
    by (simp add: failedMsg_def)
  have c: "getCid (cidSet tracking) (castedCidOf exDhtHost failedMsg) = Some (cidAt ''a'')"
    unfolding k by (simp add: getCid_def tracking_def)
  have f: "firstCidFetchRes tracking (castedCidOf exDhtHost failedMsg)
             = Some (NewCidFetchResults ''a'' 0 0 20)"
    unfolding k by (simp add: tracking_def)
  have h: "PRHolders (AddPRHolder x (cidAt ''a'')) = [x]" for x
    by (simp add: AddPRHolder_def cidAt_def NewCidInfo_def)
  have p: "RemotePeer failedMsg = ''holder2''"
    by (simp add: failedMsg_def)
  have g: "GetMAddrsOfPeer exDhtHost ''holder2'' = [''/ip4/10.0.0.1/tcp/4001'']"
          "GetUserAgentOfPeer exDhtHost ''holder2'' = ''agent''"
    by (simp_all add: exDhtHost_def)
  from holder_added_with_or_without_error [OF t c f, of tags]
  have "holdersOf (addProviderMsg tags exDhtHost failedMsg tracking) (castedCidOf exDhtHost failedMsg)
          = Some [NewPeerInfo ''holder2'' [''/ip4/10.0.0.1/tcp/4001''] ''agent'']"
    by (simp add: h p g)
  with t c f show ?thesis by blast
qed

text \<open>
  The claim of C1 fails on the failed notification of the concrete publication: the
  CID had no holder before it and has the failing peer as a holder after it.
\<close>

theorem holder_added_on_error_counterexample:
  "Error failedMsg = Some ''timeout'' \<and>
   holdersOf (Inr tracking) ''a'' = Some [] \<and>
   holdersOf (addProviderMsg tags exDhtHost failedMsg tracking) ''a''
     = Some [NewPeerInfo ''holder2'' [''/ip4/10.0.0.1/tcp/4001''] ''agent'']"
  unfolding eval_failed
  by (simp add: failedMsg_def holdersOf_def tracking_def cidAt_def NewCidInfo_def)

section \<open>The publisher's order: tracking before providing\<close>

lemma addProviderMsg_resolves:
  assumes "c \<in> dom (cidSet s)" "c \<in> dom (firstCidFetchRes s)"
    and "msgTyp n = ADD_PROVIDER \<longrightarrow> castedCidOf H n = c"
  shows "\<exists>s'. addProviderMsg P H n s = Inr s' \<and> c \<in> dom (cidSet s') \<and> c \<in> dom (firstCidFetchRes s')"
proof (cases "msgTyp n = ADD_PROVIDER")
  case True
  with assms obtain ci fr where "cidSet s (castedCidOf H n) = Some ci"
      "firstCidFetchRes s (castedCidOf H n) = Some fr" "castedCidOf H n = c"
    by auto
  with True show ?thesis
    by (cases "Error n") (simp_all add: addProviderMsg_def getCid_def Let_def)
next
  case False
  with assms show ?thesis
    by (cases "msgTyp n") (simp_all add: addProviderMsg_def)
qed

lemma listener_resolves:
  "c \<in> dom (cidSet s) \<Longrightarrow> c \<in> dom (firstCidFetchRes s) \<Longrightarrow>
   \<forall>n \<in> set ns. msgTyp n = ADD_PROVIDER \<longrightarrow> castedCidOf H n = c \<Longrightarrow>
     \<exists>s'. addProviderMsgListener P H ns s = Inr s'"
proof (induction ns arbitrary: s)
  case Nil
  then show ?case by simp
next
  case (Cons n ns)
  then obtain s1 where s1: "addProviderMsg P H n s = Inr s1" "c \<in> dom (cidSet s1)"
      "c \<in> dom (firstCidFetchRes s1)"
    using addProviderMsg_resolves [of c s n H P] by auto
  with Cons.IH [of s1] Cons.prems(3) show ?case
    by simp
qed

text \<open>
  C7. For a CID drawn by a publisher worker, the state in which \<open>ProvideCid\<close> is called
  has the CidInfo in the CidSet and the round-0 slot in the shared map under the CID's
  key: the listener handles the notifications of the call from that state on, and
  whatever ADD_PROVIDER notifications for that CID arrive, it finds both and never ends
  in one of its two fatal branches.
\<close>

theorem cid_tracked_before_provide:
  "beforeProvide pub H t c s = (ci, fr, s2) \<Longrightarrow>
     getCid (cidSet s2) c \<noteq> None \<and>
     firstCidFetchRes s2 c = Some fr \<and> frRound fr = 0 \<and>
     provideAndListen P pub H t c s = addProviderMsgListener P H (snd (ProvideCid H ci)) s2 \<and>
     ((\<forall>n \<in> set sent. msgTyp n = ADD_PROVIDER \<longrightarrow> castedCidOf H n = c) \<longrightarrow>
        (\<exists>s'. addProviderMsgListener P H sent s2 = Inr s'))"
proof -
  assume b: "beforeProvide pub H t c s = (ci, fr, s2)"
  then have f: "firstCidFetchRes s2 c = Some fr" and r: "frRound fr = 0"
    by (auto simp: beforeProvide_def Let_def NewCidFetchResults_def)
  have "CID ci = c" and "cidSet s2 = addCid ci (cidSet s)"
    using b by (auto simp: beforeProvide_def Let_def NewCidInfo_def)
  then have d: "c \<in> dom (cidSet s2)"
    by (auto simp: addCid_def split: option.splits)
  have p: "provideAndListen P pub H t c s = addProviderMsgListener P H (snd (ProvideCid H ci)) s2"
    using b by (simp add: provideAndListen_def split: prod.splits)
  from d f listener_resolves [of c s2 sent H P] have
    "(\<forall>n \<in> set sent. msgTyp n = ADD_PROVIDER \<longrightarrow> castedCidOf H n = c) \<longrightarrow>
        (\<exists>s'. addProviderMsgListener P H sent s2 = Inr s')"
    by auto
  with d f r p show ?thesis
    by (auto simp: getCid_def)
qed

lemma eval_before:
  "beforeProvide exPublisher exDhtHost 0 ''a'' noCids
     = (cidAt ''a'', NewCidFetchResults ''a'' 0 0 20, tracking)"
  by (simp add: beforeProvide_def exPublisher_def exDhtHost_def noCids_def tracking_def
        cidAt_def addCid_def NewCidInfo_def Let_def)

theorem cid_tracked_before_provide_witness:
  "beforeProvide exPublisher exDhtHost 0 ''a'' noCids
     = (cidAt ''a'', NewCidFetchResults ''a'' 0 0 20, tracking) \<and>
   msgTyp ackedMsg = ADD_PROVIDER \<and> castedCidOf exDhtHost ackedMsg = ''a'' \<and>
   msgTyp failedMsg = ADD_PROVIDER \<and> castedCidOf exDhtHost failedMsg = ''a'' \<and>
   firstCidFetchRes tracking ''a'' = Some (NewCidFetchResults ''a'' 0 0 20) \<and>
   \<not> isl (addProviderMsgListener tags exDhtHost [ackedMsg, failedMsg] tracking)"
proof -
  have m: "msgTyp ackedMsg = ADD_PROVIDER" "castedCidOf exDhtHost ackedMsg = ''a''"
          "msgTyp failedMsg = ADD_PROVIDER" "castedCidOf exDhtHost failedMsg = ''a''"
    by (simp_all add: ackedMsg_def failedMsg_def castedCidOf_def exDhtHost_def)
  then have a: "\<forall>n \<in> set [ackedMsg, failedMsg]. msgTyp n = ADD_PROVIDER \<longrightarrow> castedCidOf exDhtHost n = ''a''"
    by simp
  from cid_tracked_before_provide [OF eval_before, of tags "[ackedMsg, failedMsg]"] a
  have "firstCidFetchRes tracking ''a'' = Some (NewCidFetchResults ''a'' 0 0 20)"
    and "\<exists>s'. addProviderMsgListener tags exDhtHost [ackedMsg, failedMsg] tracking = Inr s'"
    by blast+
  with m eval_before show ?thesis
    by auto
qed

section \<open>The file source: records with malformed fields\<close>

lemma decodeRecords_Some:
  "(decodeRecords js = Some recs) = (Mistyped \<notin> set js \<and> recs = fitted js)"
proof (induction js arbitrary: recs)
  case Nil
  then show ?case by auto
next
  case (Cons j js)
  show ?case
  proof (cases j)
    case Mistyped
    then show ?thesis by simp
  next
    case (Fits r)
    show ?thesis
    proof (cases "decodeRecords js")
      case None
      with Cons [of "fitted js"] have "Mistyped \<in> set js" by simp
      with None Fits show ?thesis by simp
    next
      case (Some rs)
      with Cons [of rs] have "Mistyped \<notin> set js" "rs = fitted js" by simp_all
      with Some Fits show ?thesis by auto
    qed
  qed
qed


lemma Unmarshal_Some:
  "(Unmarshal ds = Some recs) =
     (\<exists>d. ds = [Document d] \<and>
          (case d of None \<Rightarrow> recs = [] | Some js \<Rightarrow> Mistyped \<notin> set js \<and> recs = fitted js))"
proof (cases ds rule: Unmarshal.cases)
  case 1
  then show ?thesis by auto
next
  case (2 js)
  then show ?thesis by (simp add: decodeRecords_Some)
qed simp_all

lemma getLoop_end:
  "length recs \<le> n \<Longrightarrow> getLoop P recs n lg = (Inl ''end of provider records'', Suc n, lg)"
  by (subst getLoop.simps) simp

lemma getLoop_zero:
  "n < length recs \<Longrightarrow> recs ! n = zeroRecord \<Longrightarrow>
     getLoop P recs n lg = (Inl ''end of provider records'', Suc n, lg)"
  by (subst getLoop.simps) simp


lemma getLoop_step:
  "n < length recs \<Longrightarrow> recs ! n \<noteq> zeroRecord \<Longrightarrow>
     getLoop P recs n lg =
       (case firstBad P (recs ! n) of
          Some d \<Rightarrow> getLoop P recs (Suc n) (lg @ [d])
        | None \<Rightarrow> (Inr (trackableOf P (recs ! n)), Suc n, lg))"
  by (subst getLoop.simps)
     (auto simp: firstBad_def trackableOf_def Let_def split: option.splits)

lemma getLoop_first_good:
  "getLoop P recs n lg =
     (case dropWhile (unparsed P) (reachable recs n) of
        [] \<Rightarrow> Inl ''end of provider records''
      | pr # rest \<Rightarrow> Inr (trackableOf P pr),
      Suc (n + length (takeWhile (unparsed P) (reachable recs n))),
      lg @ map (\<lambda>pr. the (firstBad P pr)) (takeWhile (unparsed P) (reachable recs n)))"
proof (induction "length recs - n" arbitrary: n lg)
  case 0
  then show ?case by (simp add: getLoop_end reachable_def)
next
  case (Suc k)
  then have n: "n < length recs" by simp
  then have d: "drop n recs = recs ! n # drop (Suc n) recs"
    by (simp add: Cons_nth_drop_Suc)
  have k: "k = length recs - Suc n" using Suc.hyps(2) by simp
  show ?case
  proof (cases "recs ! n = zeroRecord")
    case True
    then show ?thesis
      by (simp add: getLoop_zero [OF n] reachable_def d)
  next
    case False
    then have r: "reachable recs n = recs ! n # reachable recs (Suc n)"
      by (simp add: reachable_def d)
    show ?thesis
    proof (cases "firstBad P (recs ! n)")
      case None
      then show ?thesis
        by (simp add: getLoop_step [OF n False] r unparsed_def)
    next
      case (Some dg)
      then show ?thesis
        using Suc.hyps(1) [OF k, of "lg @ [dg]"]
        by (simp add: getLoop_step [OF n False] r unparsed_def)
    qed
  qed
qed



lemma multiaddresses_map_filter:
  "multiaddresses P as = List.map_filter (NewMultiaddr P) as"
  by (induction as) (simp_all add: List.map_filter_simps split: option.splits)

text \<open>
  C9. The claim: a record with any malformed field is skipped with a diagnostic and the
  iteration goes on, and only an unparseable file makes the construction fail. As
  amended. Opening a simple file succeeds exactly when the file is there, can be read
  and holds one JSON object all of whose records decode into the struct; the source
  then has these records, also those whose strings do not parse, and a record with a
  field of the wrong JSON type makes the opening fail. A call of \<open>GetNewCid\<close> goes through
  the records from the iterator's position up to the first all-empty record or the end
  of the records: it returns the first of them whose CID, ID, Creator, ProvideTime and
  PublicationTime all parse, skipping every record before it with one diagnostic, that
  of its first field that does not parse; when there is none it returns the end of the
  records, an all-empty record being passed without a diagnostic, and the next call
  starts after the record the call ended on. The record returned carries those of its
  addresses that parse; the others are dropped without a diagnostic.
\<close>

theorem malformed_fields_skip_the_record:
  "(recordsOf (OpenSimpleJSONFile F name) = Some recs) =
     (\<exists>d. F name = Some (Content [Document d]) \<and>
          (case d of None \<Rightarrow> recs = [] | Some js \<Rightarrow> Mistyped \<notin> set js \<and> recs = fitted js)) \<and>
   GetNewCid P src =
     (case dropWhile (unparsed P) (reachable (records src) (iterCalls src)) of
        [] \<Rightarrow> Inl ''end of provider records''
      | pr # rest \<Rightarrow> Inr (trackableOf P pr),
      src\<lparr>iterCalls := Suc (iterCalls src
             + length (takeWhile (unparsed P) (reachable (records src) (iterCalls src))))\<rparr>,
      map (\<lambda>pr. the (firstBad P pr))
        (takeWhile (unparsed P) (reachable (records src) (iterCalls src)))) \<and>
   tMultiAddrs (trackableOf P pr) = List.map_filter (NewMultiaddr P) (addressesOf pr)"
proof -
  have a: "(recordsOf (OpenSimpleJSONFile F name) = Some recs) =
     (\<exists>d. F name = Some (Content [Document d]) \<and>
          (case d of None \<Rightarrow> recs = [] | Some js \<Rightarrow> Mistyped \<notin> set js \<and> recs = fitted js))"
  proof (cases "F name")
    case None
    then show ?thesis by (simp add: OpenSimpleJSONFile_def recordsOf_def)
  next
    case (Some f)
    show ?thesis
    proof (cases f)
      case Unreadable
      with Some show ?thesis by (simp add: OpenSimpleJSONFile_def recordsOf_def)
    next
      case (Content ds)
      have "(recordsOf (OpenSimpleJSONFile F name) = Some recs) = (Unmarshal ds = Some recs)"
        using Some Content
        by (cases "Unmarshal ds") (simp_all add: OpenSimpleJSONFile_def recordsOf_def initializeIter_def)
      with Some Content show ?thesis
        by (simp add: Unmarshal_Some)
    qed
  qed
  have b: "GetNewCid P src =
     (case dropWhile (unparsed P) (reachable (records src) (iterCalls src)) of
        [] \<Rightarrow> Inl ''end of provider records''
      | pr # rest \<Rightarrow> Inr (trackableOf P pr),
      src\<lparr>iterCalls := Suc (iterCalls src
             + length (takeWhile (unparsed P) (reachable (records src) (iterCalls src))))\<rparr>,
      map (\<lambda>pr. the (firstBad P pr))
        (takeWhile (unparsed P) (reachable (records src) (iterCalls src))))"
    by (simp add: GetNewCid_def getLoop_first_good [of P "records src" "iterCalls src" "[]"])
  have c: "tMultiAddrs (trackableOf P pr) = List.map_filter (NewMultiaddr P) (addressesOf pr)"
    by (simp add: trackableOf_def NewTrackableCid_def multiaddresses_map_filter)
  show ?thesis
    by (rule conjI [OF a conjI [OF b c]])
qed

lemma eval_GetNewCid:
  "GetNewCid exParsers exSource =
     (Inr (NewTrackableCid ''holder'' ''a'' ''self'' [''/ip4/10.0.0.1/tcp/4001''] 0
             (12 * millisecond) ''agent''),
      exSource\<lparr>iterCalls := 2\<rparr>, [CouldNotConvertCid])"
  by (simp add: GetNewCid_def exSource_def exParsers_def recordOf_def zeroRecord_def
        getLoop.simps addressesOf_def)

lemma eval_fitted: "fitted (map Fits rs) = rs" "Mistyped \<notin> set (map Fits rs)"
  by (induction rs) auto

theorem malformed_fields_witness:
  "exFiles ''records.json'' = Some (Content [Document (Some (map Fits (records exSource)))]) \<and>
   recordsOf (OpenSimpleJSONFile exFiles ''records.json'') = Some (records exSource) \<and>
   unparsed exParsers (recordOf ''bad'' []) \<and>
   GetNewCid exParsers exSource =
     (Inr (NewTrackableCid ''holder'' ''a'' ''self'' [''/ip4/10.0.0.1/tcp/4001''] 0
             (12 * millisecond) ''agent''),
      exSource\<lparr>iterCalls := 2\<rparr>, [CouldNotConvertCid])"
proof -
  have f: "exFiles ''records.json'' = Some (Content [Document (Some (map Fits (records exSource)))])"
    by (simp add: exFiles_def)
  have e: "\<exists>d. exFiles ''records.json'' = Some (Content [Document d]) \<and>
          (case d of None \<Rightarrow> records exSource = []
           | Some js \<Rightarrow> Mistyped \<notin> set js \<and> records exSource = fitted js)"
    unfolding f by (auto simp: eval_fitted)
  note t = malformed_fields_skip_the_record
             [where F = exFiles and name = "''records.json''" and recs = "records exSource"
                and P = exParsers and src = exSource and pr = zeroRecord]
  have o: "recordsOf (OpenSimpleJSONFile exFiles ''records.json'') = Some (records exSource)"
    by (rule iffD2 [OF conjunct1 [OF t] e])
  have u: "unparsed exParsers (recordOf ''bad'' [])"
    by (simp add: unparsed_def firstBad_def exParsers_def recordOf_def)
  show ?thesis
    by (intro conjI f o u eval_GetNewCid)
qed

text \<open>
  The claim of C9 fails on three inputs. A record whose first address does not parse
  is returned with the other address and nothing is logged. An all-empty record, whose
  CID does not parse, is not skipped with a diagnostic: the call that reads it returns
  the end of the records although a well-formed record follows, and nothing is logged.
  A file that holds one JSON object with a record of the wrong JSON type in one field
  is not opened.
\<close>

theorem malformed_record_counterexample:
  "NewMultiaddr exParsers ''bad'' = None \<and>
   records addrSource = [recordOf ''a'' [''bad'', ''/ip4/10.0.0.1/tcp/4001'']] \<and>
   GetNewCid exParsers addrSource =
     (Inr (NewTrackableCid ''holder'' ''a'' ''self'' [''/ip4/10.0.0.1/tcp/4001''] 0
             (12 * millisecond) ''agent''),
      addrSource\<lparr>iterCalls := 1\<rparr>, []) \<and>
   firstBad exParsers zeroRecord = Some CouldNotConvertCid \<and>
   records emptyFirst = [zeroRecord, recordOf ''a'' []] \<and>
   GetNewCid exParsers emptyFirst =
     (Inl ''end of provider records'', emptyFirst\<lparr>iterCalls := 1\<rparr>, []) \<and>
   exFiles ''mistyped.json'' = Some (Content [Document (Some [Fits (recordOf ''a'' []), Mistyped])]) \<and>
   OpenSimpleJSONFile exFiles ''mistyped.json'' = Inl UnmarshalFailed"
  by (simp add: GetNewCid_def addrSource_def emptyFirst_def exParsers_def recordOf_def
        zeroRecord_def getLoop.simps addressesOf_def firstBad_def exFiles_def
        OpenSimpleJSONFile_def)

section \<open>The encoded file and the simple files\<close>

text \<open>
  C8. The claim: an encoded file of N documents yields the records that N simple files
  with one of the documents each yield, concatenated. \<open>OpenEncodedJSONFile\<close> decodes
  every document into the same variable. On a file of two documents, of which the
  second has no records' key, the second decoding leaves the first document's record
  in the variable and the record is appended again; the two simple files yield the
  record once.
\<close>

theorem encoded_file_repeats_records:
  "recordsOf (OpenEncodedJSONFile L exFiles ''encoded.json'') = Some [recordOf ''a'' [], recordOf ''a'' []] \<and>
   recordsOf (OpenMultipleSimpleJSONFiles exFiles [''one.json'', ''two.json'']) = Some [recordOf ''a'' []] \<and>
   recordsOf (OpenSimpleJSONFile exFiles ''one.json'') = Some [recordOf ''a'' []] \<and>
   recordsOf (OpenSimpleJSONFile exFiles ''two.json'') = Some []"
  by (simp add: recordsOf_def OpenEncodedJSONFile_def OpenMultipleSimpleJSONFiles_def
        OpenSimpleJSONFile_def exFiles_def initializeIter_def)

section \<open>Closing the database client\<close>

lemma receivers_new: "receivers NewDBClient = [0, 1, 2, 3]"
  by (simp add: receivers_def NewDBClient_def runPersisters_def maxPersisters_def upt_conv_Cons)

lemma persisters_new:
  "persisters NewDBClient =
     [(CidInfoK, Running), (PeerInfoK, Running), (FetchResultK, Running), (PingResultsK, Running)]"
  by (simp add: NewDBClient_def runPersisters_def maxPersisters_def)

text \<open>
  C2. The claim: the pulse that \<open>Close\<close> sends on the done channel reaches all four
  persisters before the write channels are closed. On a client fresh from
  \<open>NewDBClient\<close>, whichever persister the scheduler picks, the send completes with that
  one persister gone through its done case and the three others still in their loops,
  no channel being closed yet; \<open>Close\<close> then closes the four channels with the three
  still running.
\<close>

theorem done_pulse_reaches_one_persister:
  "\<exists>db1 db2.
     sendDone pick NewDBClient = Returns db1 \<and>
     length (sawDone db1) = 1 \<and> length (stillRunning db1) = 3 \<and>
     \<not> closedC db1 CidInfoK \<and> \<not> closedC db1 PeerInfoK \<and>
     \<not> closedC db1 FetchResultK \<and> \<not> closedC db1 PingResultsK \<and>
     Close pick NewDBClient = Returns db2 \<and> persisters db2 = persisters db1 \<and>
     closedC db2 CidInfoK \<and> closedC db2 PeerInfoK \<and>
     closedC db2 FetchResultK \<and> closedC db2 PingResultsK"
proof -
  have c: "\<And>k. \<not> closedC NewDBClient k"
    by (simp add: NewDBClient_def)
  have "pick mod 4 < 4" by simp
  then consider "pick mod 4 = 0" | "pick mod 4 = 1" | "pick mod 4 = 2" | "pick mod 4 = 3"
    by linarith
  then show ?thesis
  proof cases
    case 1
    then show ?thesis
      by (simp add: Close_def sendDone_def receivers_new persisters_new andThen_def closeChan_def
            sawDone_def stillRunning_def c)
  next
    case 2
    then show ?thesis
      by (simp add: Close_def sendDone_def receivers_new persisters_new andThen_def closeChan_def
            sawDone_def stillRunning_def c)
  next
    case 3
    then show ?thesis
      by (simp add: Close_def sendDone_def receivers_new persisters_new andThen_def closeChan_def
            sawDone_def stillRunning_def c)
  next
    case 4
    then show ?thesis
      by (simp add: Close_def sendDone_def receivers_new persisters_new andThen_def closeChan_def
            sawDone_def stillRunning_def c)
  qed
qed

end
